theory Spec2Isabelle
  imports Complex_Main
begin

section \<open>Shared vocabulary\<close>

text \<open>
  Modelled from the spec: the constants of \<^verbatim>\<open>cryptofeed.defines\<close> (exchange identifiers,
  canonical channel names, the \<^verbatim>\<open>UNSUPPORTED\<close> sentinel, \<^verbatim>\<open>BID\<close>/\<^verbatim>\<open>ASK\<close>) are imported by
  both source files but their values are not part of the sources. They are taken as
  pairwise distinct symbolic constants, one constructor for each imported name.
\<close>

datatype exchange =
    BITFINEX | GEMINI | POLONIEX | HITBTC | BITSTAMP | COINBASE | BITMEX | KRAKEN
  | KRAKEN_FUTURES | BINANCE | EXX | HUOBI | HUOBI_US | HUOBI_DM | OKCOIN | OKEX
  | COINBENE | BYBIT | FTX | DERIBIT
  | OtherExchange string

datatype channel =
    L2_BOOK | L3_BOOK | TRADES | TICKER | VOLUME | FUNDING
  | TRADES_SWAP | TICKER_SWAP | L2_BOOK_SWAP | INSTRUMENT

datatype side = BID | ASK

text \<open>
  Every \<^verbatim>\<open>raise\<close> of the two files, and the exceptions Python itself raises there:
  \<^verbatim>\<open>KeyError\<close> for a subscript on a missing dictionary key, \<^verbatim>\<open>IndexError\<close> for
  \<^verbatim>\<open>pair[0]\<close> on an empty string, \<^verbatim>\<open>TypeError\<close> for a division of a value that is no
  number by a float, and \<^verbatim>\<open>OverflowError\<close> for an integer too large to become a float.
\<close>

datatype error =
    KeyError | IndexError | TypeError | OverflowError
  | UnsupportedTradingPair | UnsupportedDataFeed

section \<open>The BitMEX order book engine (\<^verbatim>\<open>exchange/bitmex.py\<close>)\<close>

subsection \<open>Messages\<close>

text \<open>
  A decoded JSON object is a dictionary; a key that is absent is \<open>None\<close>, so that each
  subscript \<^verbatim>\<open>data['price']\<close> of the source has its \<^verbatim>\<open>KeyError\<close> branch. Prices and
  sizes are \<^verbatim>\<open>Decimal\<close> values, modelled as rationals; order ids are integers.
\<close>

record entry =
  e_symbol :: "string option"
  e_side :: "string option"
  e_id :: "int option"
  e_price :: "rat option"
  e_size :: "rat option"

record msg =
  m_action :: "string option"
  m_data :: "entry list option"

subsection \<open>Session state\<close>

text \<open>
  \<^verbatim>\<open>self.l2_book[pair]\<close> is \<^verbatim>\<open>{BID: sd(), ASK: sd()}\<close>, \<^verbatim>\<open>self.order_id[pair]\<close> is a
  \<^verbatim>\<open>defaultdict(dict)\<close> indexed by side: both are total in the side and partial in the
  pair. A side of the \<^verbatim>\<open>defaultdict\<close> that was never touched reads as the empty dictionary.
\<close>

type_synonym book_side = "rat \<rightharpoonup> rat"
type_synonym id_index = "int \<rightharpoonup> rat"

record session =
  pairs :: "string list"
  partial_received :: bool
  l2_book :: "string \<rightharpoonup> (side \<Rightarrow> book_side)"
  order_id :: "string \<rightharpoonup> (side \<Rightarrow> id_index)"

text \<open>The loop \<^verbatim>\<open>for pair in self.pairs\<close> of \<^verbatim>\<open>_reset\<close>, after \<^verbatim>\<open>self.order_id = {}\<close>.\<close>

fun reset_pairs :: "session \<Rightarrow> string list \<Rightarrow> session" where
  "reset_pairs s [] = s"
| "reset_pairs s (pair # rest) =
     reset_pairs
       (s\<lparr>l2_book := (l2_book s)(pair \<mapsto> (\<lambda>sd. Map.empty)),
          order_id := (order_id s)(pair \<mapsto> (\<lambda>sd. Map.empty))\<rparr>)
       rest"

text \<open>\<^verbatim>\<open>Bitmex._reset\<close>. The keys that \<^verbatim>\<open>self.l2_book\<close> already has stay.\<close>

definition reset :: "session \<Rightarrow> session" where
  "reset s = reset_pairs (s\<lparr>partial_received := False, order_id := Map.empty\<rparr>) (pairs s)"

subsection \<open>The delta and the emission\<close>

text \<open>\<^verbatim>\<open>delta = {BID: [], ASK: []}\<close>: the bid list, then the ask list.\<close>

type_synonym delta = "(rat \<times> rat) list \<times> (rat \<times> rat) list"

fun delta_append :: "side \<Rightarrow> rat \<times> rat \<Rightarrow> delta \<Rightarrow> delta" where
  "delta_append BID x (b, a) = (b @ [x], a)"
| "delta_append ASK x (b, a) = (b, a @ [x])"

text \<open>
  The arguments of the one call
  \<^verbatim>\<open>self.book_callback(pair, L2_BOOK, forced, delta, timestamp)\<close>. The callback itself
  belongs to the base class, which is not among the sources; an emission is the record
  of what it is called with. The timestamp is handed through untouched.
\<close>

record emission =
  em_pair :: "string option"
  em_channel :: channel
  em_forced :: bool
  em_delta :: delta
  em_timestamp :: rat

text \<open>
  The three ways \<^verbatim>\<open>_book\<close> returns: the bare \<^verbatim>\<open>return\<close> before the first partial, the
  \<^verbatim>\<open>LOG.warning\<close> and \<^verbatim>\<open>return\<close> of the final \<^verbatim>\<open>else\<close>, and the call of the callback.
\<close>

datatype book_return = Discarded | Unexpected | Emitted emission

subsection \<open>One entry of a message\<close>

text \<open>\<^verbatim>\<open>BID if data['side'] == 'Buy' else ASK\<close>\<close>

definition side_of :: "string \<Rightarrow> side" where
  "side_of sd = (if sd = ''Buy'' then BID else ASK)"

text \<open>
  Each step takes the session and the delta built so far and gives back the session as
  the entry left it, together with either the error raised or the value of the local
  variable \<^verbatim>\<open>pair\<close> and the extended delta. A session returned beside an error carries
  the assignments made before the error: Python does not undo them.
\<close>

type_synonym step_result = "session \<times> (error + string \<times> delta)"

text \<open>Lines 108 to 116, the body of the loop for \<^verbatim>\<open>partial\<close> and \<^verbatim>\<open>insert\<close>.\<close>

definition insert_step :: "session \<Rightarrow> delta \<Rightarrow> entry \<Rightarrow> step_result" where
  "insert_step s d e =
     (case e_side e of None \<Rightarrow> (s, Inl KeyError) | Some sd \<Rightarrow>
      (case e_price e of None \<Rightarrow> (s, Inl KeyError) | Some price \<Rightarrow>
      (case e_symbol e of None \<Rightarrow> (s, Inl KeyError) | Some pair \<Rightarrow>
      (case e_size e of None \<Rightarrow> (s, Inl KeyError) | Some sz \<Rightarrow>
      (case e_id e of None \<Rightarrow> (s, Inl KeyError) | Some oid \<Rightarrow>
      (case l2_book s pair of None \<Rightarrow> (s, Inl KeyError) | Some b \<Rightarrow>
        let s1 = s\<lparr>l2_book := (l2_book s)(pair \<mapsto> b(side_of sd := (b (side_of sd))(price \<mapsto> sz)))\<rparr>
        in (case order_id s1 pair of None \<Rightarrow> (s1, Inl KeyError) | Some ix \<Rightarrow>
          (s1\<lparr>order_id := (order_id s1)(pair \<mapsto> ix(side_of sd := (ix (side_of sd))(oid \<mapsto> price)))\<rparr>,
           Inr (pair, delta_append (side_of sd) (price, sz) d)))))))))"

text \<open>Lines 119 to 128, the body of the loop for \<^verbatim>\<open>update\<close>.\<close>

definition update_step :: "session \<Rightarrow> delta \<Rightarrow> entry \<Rightarrow> step_result" where
  "update_step s d e =
     (case e_side e of None \<Rightarrow> (s, Inl KeyError) | Some sd \<Rightarrow>
      (case e_symbol e of None \<Rightarrow> (s, Inl KeyError) | Some pair \<Rightarrow>
      (case e_size e of None \<Rightarrow> (s, Inl KeyError) | Some update_size \<Rightarrow>
      (case e_id e of None \<Rightarrow> (s, Inl KeyError) | Some oid \<Rightarrow>
      (case order_id s pair of None \<Rightarrow> (s, Inl KeyError) | Some ix \<Rightarrow>
      (case ix (side_of sd) oid of None \<Rightarrow> (s, Inl KeyError) | Some price \<Rightarrow>
      (case l2_book s pair of None \<Rightarrow> (s, Inl KeyError) | Some b \<Rightarrow>
        (s\<lparr>l2_book := (l2_book s)(pair \<mapsto> b(side_of sd := (b (side_of sd))(price \<mapsto> update_size))),
           order_id := (order_id s)(pair \<mapsto> ix(side_of sd := (ix (side_of sd))(oid \<mapsto> price)))\<rparr>,
         Inr (pair, delta_append (side_of sd) (price, update_size) d)))))))))"

text \<open>
  Lines 131 to 139, the body of the loop for \<^verbatim>\<open>delete\<close>. The index entry is deleted
  first; the \<^verbatim>\<open>del\<close> on the book raises when the level is not there.
\<close>

definition delete_step :: "session \<Rightarrow> delta \<Rightarrow> entry \<Rightarrow> step_result" where
  "delete_step s d e =
     (case e_symbol e of None \<Rightarrow> (s, Inl KeyError) | Some pair \<Rightarrow>
      (case e_side e of None \<Rightarrow> (s, Inl KeyError) | Some sd \<Rightarrow>
      (case e_id e of None \<Rightarrow> (s, Inl KeyError) | Some oid \<Rightarrow>
      (case order_id s pair of None \<Rightarrow> (s, Inl KeyError) | Some ix \<Rightarrow>
      (case ix (side_of sd) oid of None \<Rightarrow> (s, Inl KeyError) | Some delete_price \<Rightarrow>
        let s1 = s\<lparr>order_id := (order_id s)(pair \<mapsto> ix(side_of sd := (ix (side_of sd))(oid := None)))\<rparr>
        in (case l2_book s1 pair of None \<Rightarrow> (s1, Inl KeyError) | Some b \<Rightarrow>
           (case b (side_of sd) delete_price of None \<Rightarrow> (s1, Inl KeyError) | Some old \<Rightarrow>
          (s1\<lparr>l2_book := (l2_book s1)(pair \<mapsto> b(side_of sd := (b (side_of sd))(delete_price := None)))\<rparr>,
           Inr (pair, delta_append (side_of sd) (delete_price, 0) d)))))))))"

subsection \<open>The loop over \<^verbatim>\<open>msg['data']\<close> and \<^verbatim>\<open>_book\<close>\<close>

text \<open>
  \<^verbatim>\<open>for data in msg['data']\<close>: the first error ends the loop and the call; otherwise the
  loop ends with the last value bound to \<^verbatim>\<open>pair\<close> (\<open>None\<close> when there was no entry) and
  the delta.
\<close>

fun entries_loop ::
  "(session \<Rightarrow> delta \<Rightarrow> entry \<Rightarrow> step_result) \<Rightarrow> session \<Rightarrow> string option \<Rightarrow> delta
     \<Rightarrow> entry list \<Rightarrow> session \<times> (error + string option \<times> delta)" where
  "entries_loop step s p d [] = (s, Inr (p, d))"
| "entries_loop step s p d (e # es) =
     (case step s d e of
        (s', Inl err) \<Rightarrow> (s', Inl err)
      | (s', Inr (p', d')) \<Rightarrow> entries_loop step s' (Some p') d' es)"

text \<open>The loop of one branch, then line 145.\<close>

definition apply_data ::
  "(session \<Rightarrow> delta \<Rightarrow> entry \<Rightarrow> step_result) \<Rightarrow> session \<Rightarrow> bool \<Rightarrow> msg \<Rightarrow> rat
     \<Rightarrow> session \<times> (error + book_return)" where
  "apply_data step s forced m timestamp =
     (case m_data m of None \<Rightarrow> (s, Inl KeyError) | Some es \<Rightarrow>
      (case entries_loop step s None ([], []) es of
        (s', Inl err) \<Rightarrow> (s', Inl err)
      | (s', Inr (p, d)) \<Rightarrow>
          (s', Inr (Emitted \<lparr>em_pair = p, em_channel = L2_BOOK, em_forced = forced,
                             em_delta = d, em_timestamp = timestamp\<rparr>))))"

text \<open>Lines 106 to 145: the dispatch on \<^verbatim>\<open>msg['action']\<close>.\<close>

definition dispatch :: "session \<Rightarrow> bool \<Rightarrow> msg \<Rightarrow> rat \<Rightarrow> session \<times> (error + book_return)" where
  "dispatch s forced m timestamp =
     (case m_action m of None \<Rightarrow> (s, Inl KeyError) | Some a \<Rightarrow>
        if a = ''partial'' \<or> a = ''insert'' then apply_data insert_step s forced m timestamp
        else if a = ''update'' then apply_data update_step s forced m timestamp
        else if a = ''delete'' then apply_data delete_step s forced m timestamp
        else (s, Inr Unexpected))"

text \<open>\<^verbatim>\<open>Bitmex._book\<close>, lines 94 to 145.\<close>

definition book :: "session \<Rightarrow> msg \<Rightarrow> rat \<Rightarrow> session \<times> (error + book_return)" where
  "book s m timestamp =
     (if \<not> partial_received s then
        (case m_action m of None \<Rightarrow> (s, Inl KeyError) | Some a \<Rightarrow>
           if a \<noteq> ''partial'' then (s, Inr Discarded)
           else dispatch (s\<lparr>partial_received := True\<rparr>) True m timestamp)
      else dispatch s False m timestamp)"

subsection \<open>A session over a sequence of messages\<close>

text \<open>
  The messages of one session are handled one after the other, each on the state the
  one before left, also when that one raised. For every message the list records the
  state after it and how the call ended.
\<close>

fun run_book :: "session \<Rightarrow> (msg \<times> rat) list \<Rightarrow> (session \<times> (error + book_return)) list" where
  "run_book s [] = []"
| "run_book s (x # rest) =
     (let r = book s (fst x) (snd x) in r # run_book (fst r) rest)"

text \<open>
  Before the first partial every message is discarded, so the first message accepted
  after a reset is the first one whose action is \<^verbatim>\<open>partial\<close>.
\<close>

definition first_accepted :: "(msg \<times> rat) list \<Rightarrow> nat \<Rightarrow> bool" where
  "first_accepted ms i =
     (m_action (fst (ms ! i)) = Some ''partial''
      \<and> (\<forall>j<i. m_action (fst (ms ! j)) \<noteq> Some ''partial''))"

subsection \<open>Example inputs\<close>

text \<open>
  A session that subscribes XBTUSD alone, before its \<^verbatim>\<open>_reset\<close>; an entry on the buy
  side of XBTUSD with its id, price and size; a message with its action and entries.
\<close>

definition xbt_session :: session where
  "xbt_session = \<lparr>pairs = [''XBTUSD''], partial_received = False,
                   l2_book = Map.empty, order_id = Map.empty\<rparr>"

definition buy :: "int \<Rightarrow> rat option \<Rightarrow> rat option \<Rightarrow> entry" where
  "buy oid price sz = \<lparr>e_symbol = Some ''XBTUSD'', e_side = Some ''Buy'', e_id = Some oid,
                        e_price = price, e_size = sz\<rparr>"

definition message :: "string \<Rightarrow> entry list \<Rightarrow> msg" where
  "message a es = \<lparr>m_action = Some a, m_data = Some es\<rparr>"

subsection \<open>The scenario of the specification\<close>

text \<open>
  The three messages of the scenario: a partial with order 1 at price 100 and size 5 on
  the buy side of XBTUSD, an update of order 1 to size 3, and a delete of order 1.
\<close>

definition scenario_partial :: msg where
  "scenario_partial = \<lparr>m_action = Some ''partial'',
     m_data = Some [\<lparr>e_symbol = Some ''XBTUSD'', e_side = Some ''Buy'', e_id = Some 1,
                     e_price = Some 100, e_size = Some 5\<rparr>]\<rparr>"

definition scenario_update :: msg where
  "scenario_update = \<lparr>m_action = Some ''update'',
     m_data = Some [\<lparr>e_symbol = Some ''XBTUSD'', e_side = Some ''Buy'', e_id = Some 1,
                     e_price = None, e_size = Some 3\<rparr>]\<rparr>"

definition scenario_delete :: msg where
  "scenario_delete = \<lparr>m_action = Some ''delete'',
     m_data = Some [\<lparr>e_symbol = Some ''XBTUSD'', e_side = Some ''Buy'', e_id = Some 1,
                     e_price = None, e_size = None\<rparr>]\<rparr>"

subsection \<open>The consistency of book and index\<close>

text \<open>The price an order id has in the index, and the size a price has in the book.\<close>

definition index_price :: "session \<Rightarrow> string \<Rightarrow> side \<Rightarrow> int \<Rightarrow> rat option" where
  "index_price s pair sd oid = (case order_id s pair of None \<Rightarrow> None | Some ix \<Rightarrow> ix sd oid)"

definition book_level :: "session \<Rightarrow> string \<Rightarrow> side \<Rightarrow> rat \<Rightarrow> rat option" where
  "book_level s pair sd price = (case l2_book s pair of None \<Rightarrow> None | Some b \<Rightarrow> b sd price)"

text \<open>
  Every index entry maps to a price that is a level of the book (a book side is a map,
  so there is one level at a price or none), and every level is the price of some id.
\<close>

definition book_consistent :: "session \<Rightarrow> bool" where
  "book_consistent s =
     (\<forall>pair sd.
        (\<forall>oid price. index_price s pair sd oid = Some price \<longrightarrow> book_level s pair sd price \<noteq> None)
      \<and> (\<forall>price. book_level s pair sd price \<noteq> None \<longrightarrow> (\<exists>oid. index_price s pair sd oid = Some price)))"

text \<open>
  An entry of a \<^verbatim>\<open>partial\<close> or \<^verbatim>\<open>insert\<close> message opens a level of its own: its id is
  not in the index and its price is not in the book, or the index has the id at this
  very price already.
\<close>

definition opens_own_level :: "session \<Rightarrow> entry \<Rightarrow> bool" where
  "opens_own_level s e =
     (case e_symbol e of None \<Rightarrow> True | Some pair \<Rightarrow>
      (case e_side e of None \<Rightarrow> True | Some sd \<Rightarrow>
      (case e_id e of None \<Rightarrow> True | Some oid \<Rightarrow>
      (case e_price e of None \<Rightarrow> True | Some price \<Rightarrow>
         index_price s pair (side_of sd) oid = Some price
       \<or> (index_price s pair (side_of sd) oid = None
          \<and> book_level s pair (side_of sd) price = None)))))"

text \<open>The same for the entries of a message, each at the state the loop reaches it in.\<close>

fun entries_open_levels :: "session \<Rightarrow> entry list \<Rightarrow> bool" where
  "entries_open_levels s [] = True"
| "entries_open_levels s (e # es) =
     (opens_own_level s e \<and>
      (case insert_step s ([], []) e of
         (s', Inl err) \<Rightarrow> True
       | (s', Inr r) \<Rightarrow> entries_open_levels s' es))"

definition msg_opens_levels :: "session \<Rightarrow> msg \<Rightarrow> bool" where
  "msg_opens_levels s m =
     (case m_action m of None \<Rightarrow> True | Some a \<Rightarrow>
      (case m_data m of None \<Rightarrow> True | Some es \<Rightarrow>
         if a = ''partial'' \<or> (a = ''insert'' \<and> partial_received s)
         then entries_open_levels (s\<lparr>partial_received := True\<rparr>) es
         else True))"

text \<open>And for the messages of a session, each at the state it is handled in.\<close>

fun run_opens_levels :: "session \<Rightarrow> (msg \<times> rat) list \<Rightarrow> bool" where
  "run_opens_levels s [] = True"
| "run_opens_levels s (x # rest) =
     (msg_opens_levels s (fst x) \<and> run_opens_levels (fst (book s (fst x) (snd x))) rest)"

subsection \<open>The invariant that the engine keeps\<close>

text \<open>
  For one pair and side: index and book agree in both directions, and no two order ids
  share a price.
\<close>

definition side_kept :: "(int \<rightharpoonup> rat) \<Rightarrow> (rat \<rightharpoonup> rat) \<Rightarrow> bool" where
  "side_kept ix bk =
     ((\<forall>oid price. ix oid = Some price \<longrightarrow> bk price \<noteq> None)
    \<and> (\<forall>price. bk price \<noteq> None \<longrightarrow> (\<exists>oid. ix oid = Some price))
    \<and> (\<forall>oid oid' price. ix oid = Some price \<longrightarrow> ix oid' = Some price \<longrightarrow> oid = oid'))"

text \<open>For the session: book and index have the same pairs, and every side is kept.\<close>

definition well_kept :: "session \<Rightarrow> bool" where
  "well_kept s =
     (dom (l2_book s) = dom (order_id s)
      \<and> (\<forall>pair sd. side_kept (index_price s pair sd) (book_level s pair sd)))"

text \<open>
  The session after the two assignments of an insert or update entry, and after the two
  \<^verbatim>\<open>del\<close> statements of a delete entry, for a pair that both tables have.
\<close>

definition put_entry :: "session \<Rightarrow> string \<Rightarrow> side \<Rightarrow> int \<Rightarrow> rat \<Rightarrow> rat \<Rightarrow> session" where
  "put_entry s pair sd oid price sz =
     s\<lparr>l2_book := (l2_book s)(pair \<mapsto>
          (the (l2_book s pair))(sd := (the (l2_book s pair) sd)(price \<mapsto> sz))),
       order_id := (order_id s)(pair \<mapsto>
          (the (order_id s pair))(sd := (the (order_id s pair) sd)(oid \<mapsto> price)))\<rparr>"

definition drop_entry :: "session \<Rightarrow> string \<Rightarrow> side \<Rightarrow> int \<Rightarrow> rat \<Rightarrow> session" where
  "drop_entry s pair sd oid price =
     s\<lparr>order_id := (order_id s)(pair \<mapsto>
          (the (order_id s pair))(sd := (the (order_id s pair) sd)(oid := None))),
       l2_book := (l2_book s)(pair \<mapsto>
          (the (l2_book s pair))(sd := (the (l2_book s pair) sd)(price := None)))\<rparr>"

section \<open>The normalisation registry (\<^verbatim>\<open>standards.py\<close>)\<close>

subsection \<open>Trading pairs\<close>

text \<open>
  The two module-level dictionaries \<^verbatim>\<open>_std_trading_pairs\<close> (canonical pair, then
  exchange, to native pair) and \<^verbatim>\<open>_exchange_to_std\<close> (native pair to canonical pair,
  one table for all exchanges).
\<close>

record registry =
  std_trading_pairs :: "string \<rightharpoonup> (exchange \<rightharpoonup> string)"
  exchange_to_std :: "string \<rightharpoonup> string"

definition empty_registry :: registry where
  "empty_registry = \<lparr>std_trading_pairs = Map.empty, exchange_to_std = Map.empty\<rparr>"

text \<open>Lines 34 to 38, the body of the loop \<^verbatim>\<open>for std, exch in mapping.items()\<close>.\<close>

definition load_pair :: "exchange \<Rightarrow> registry \<Rightarrow> string \<times> string \<Rightarrow> registry" where
  "load_pair exchange reg item =
     (let std = fst item; exch = snd item;
          r1 = reg\<lparr>exchange_to_std := (exchange_to_std reg)(exch \<mapsto> std)\<rparr>
      in case std_trading_pairs r1 std of
           Some inner \<Rightarrow> r1\<lparr>std_trading_pairs := (std_trading_pairs r1)(std \<mapsto> inner(exchange \<mapsto> exch))\<rparr>
         | None \<Rightarrow> r1\<lparr>std_trading_pairs := (std_trading_pairs r1)(std \<mapsto> [exchange \<mapsto> exch])\<rparr>)"

text \<open>
  \<^verbatim>\<open>load_exchange_pair_mapping\<close>. The function \<^verbatim>\<open>gen_pairs\<close> is not among the sources:
  the dictionary it returns for the exchange is the parameter \<open>mapping\<close>, its items in
  iteration order.
\<close>

definition load_exchange_pair_mapping ::
  "registry \<Rightarrow> exchange \<Rightarrow> (string \<times> string) list \<Rightarrow> registry" where
  "load_exchange_pair_mapping reg exchange mapping =
     (if exchange \<in> {BITMEX, DERIBIT, KRAKEN_FUTURES} then reg
      else foldl (load_pair exchange) reg mapping)"

text \<open>Several exchanges loaded one after the other.\<close>

fun load_all :: "registry \<Rightarrow> (exchange \<times> (string \<times> string) list) list \<Rightarrow> registry" where
  "load_all reg [] = reg"
| "load_all reg (x # rest) = load_all (load_exchange_pair_mapping reg (fst x) (snd x)) rest"

text \<open>
  \<^verbatim>\<open>_std_trading_pairs[pair][exchange]\<close> where both keys are there: the native pair
  registered for a canonical pair on an exchange.
\<close>

definition native_of :: "registry \<Rightarrow> string \<Rightarrow> exchange \<Rightarrow> string option" where
  "native_of reg pair exchange =
     (case std_trading_pairs reg pair of None \<Rightarrow> None | Some inner \<Rightarrow> inner exchange)"

text \<open>\<^verbatim>\<open>pair_std_to_exchange\<close>\<close>

definition pair_std_to_exchange :: "registry \<Rightarrow> string \<Rightarrow> exchange \<Rightarrow> error + string" where
  "pair_std_to_exchange reg pair exchange =
     (if exchange \<in> {BITMEX, DERIBIT, KRAKEN_FUTURES} then Inr pair
      else case std_trading_pairs reg pair of
             Some inner \<Rightarrow>
               (case inner exchange of
                  Some native \<Rightarrow> Inr native
                | None \<Rightarrow> Inl UnsupportedTradingPair)
           | None \<Rightarrow>
               if exchange = BITFINEX \<and> CHR ''-'' \<notin> set pair then Inr (''f'' @ pair)
               else Inl UnsupportedTradingPair)"

text \<open>
  \<^verbatim>\<open>pair_exchange_to_std\<close>. The subscript \<^verbatim>\<open>pair[0]\<close> raises \<^verbatim>\<open>IndexError\<close> on the
  empty string; the value \<open>None\<close> is Python's \<^verbatim>\<open>None\<close>.
\<close>

definition pair_exchange_to_std :: "registry \<Rightarrow> string \<Rightarrow> error + string option" where
  "pair_exchange_to_std reg pair =
     (case exchange_to_std reg pair of
        Some std \<Rightarrow> Inr (Some std)
      | None \<Rightarrow>
          (case pair of
             [] \<Rightarrow> Inl IndexError
           | c # rest \<Rightarrow> if c = CHR ''f'' then Inr (Some rest) else Inr None))"

text \<open>The round trip: the native pair of a canonical pair, translated back.\<close>

definition pair_round_trip :: "registry \<Rightarrow> string \<Rightarrow> exchange \<Rightarrow> error + string option" where
  "pair_round_trip reg pair exchange =
     (case pair_std_to_exchange reg pair exchange of
        Inl err \<Rightarrow> Inl err
      | Inr native \<Rightarrow> pair_exchange_to_std reg native)"

subsection \<open>Timestamps\<close>

text \<open>
  The values \<^verbatim>\<open>timestamp_normalize\<close> is handed: an integer, a float, a \<^verbatim>\<open>Decimal\<close> or a
  string. A Python float is an IEEE 754 binary64 number: a finite one is the rational it
  stands for (the two zeros are one value here), beside the two infinities, told apart
  by \<open>True\<close> for the negative one, and the NaN.
\<close>

datatype pyfloat = Finite rat | Infinity bool | NotANumber

datatype pyval = IntV int | FloatV pyfloat | DecimalV rat | StrV string

text \<open>The number of binary digits of a natural number, as \<^verbatim>\<open>int.bit_length()\<close>.\<close>

fun bit_length :: "nat \<Rightarrow> nat" where
  "bit_length n = (if n = 0 then 0 else Suc (bit_length (n div 2)))"

declare bit_length.simps [simp del]

text \<open>The binary exponent of a positive rational \<open>x\<close>: the \<open>e\<close> with \<open>2^e \<le> x < 2^(e+1)\<close>.\<close>

definition floor_log2 :: "rat \<Rightarrow> int" where
  "floor_log2 x =
     (if 1 \<le> x then int (bit_length (nat \<lfloor>x\<rfloor>)) - 1
      else - int (bit_length (nat (\<lceil>1 / x\<rceil> - 1))))"

text \<open>The nearest integer, a tie going to the even one.\<close>

definition round_half_even :: "rat \<Rightarrow> int" where
  "round_half_even y =
     (let f = \<lfloor>y\<rfloor>; r = y - of_int f
      in if r < 1 / 2 then f else if 1 / 2 < r then f + 1 else if even f then f else f + 1)"

text \<open>\<open>x\<close> times two to the power \<open>k\<close>, for a \<open>k\<close> of either sign.\<close>

definition scale2 :: "rat \<Rightarrow> int \<Rightarrow> rat" where
  "scale2 x k = (if 0 \<le> k then x * 2 ^ nat k else x / 2 ^ nat (- k))"

text \<open>
  The binary64 number nearest to a rational, ties to even, which is how a division of
  two floats, the conversion of an integer and the reading of a decimal literal round:
  53 binary digits at the exponent of \<open>x\<close>, the exponent held at -1022 for the subnormal
  numbers, and an infinity from \<open>2^1024\<close> on.
\<close>

definition round_float :: "rat \<Rightarrow> pyfloat" where
  "round_float x =
     (if x = 0 then Finite 0
      else let e = max (floor_log2 \<bar>x\<bar>) (- 1022);
               r = scale2 (of_int (round_half_even (scale2 \<bar>x\<bar> (52 - e)))) (e - 52)
           in if 2 ^ 1024 \<le> r then Infinity (x < 0) else Finite (if x < 0 then - r else r))"

text \<open>
  \<^verbatim>\<open>ts / 1000.0\<close> and \<^verbatim>\<open>ts / 1000000.0\<close>: the true division of a value by a positive
  float \<open>d\<close>. An integer is converted to a float first, which raises when it is too
  large; a \<^verbatim>\<open>Decimal\<close> and a string do not divide by a float.
\<close>

definition truediv_float :: "pyval \<Rightarrow> rat \<Rightarrow> error + pyval" where
  "truediv_float ts d =
     (case ts of
        IntV n \<Rightarrow>
          (case round_float (of_int n) of
             Finite f \<Rightarrow> Inr (FloatV (round_float (f / d)))
           | Infinity neg \<Rightarrow> Inl OverflowError
           | NotANumber \<Rightarrow> Inl OverflowError)
      | FloatV fl \<Rightarrow>
          (case fl of
             Finite f \<Rightarrow> Inr (FloatV (round_float (f / d)))
           | Infinity neg \<Rightarrow> Inr (FloatV (Infinity neg))
           | NotANumber \<Rightarrow> Inr (FloatV NotANumber))
      | DecimalV x \<Rightarrow> Inl TypeError
      | StrV s \<Rightarrow> Inl TypeError)"

text \<open>
  What \<^verbatim>\<open>timestamp_normalize\<close> returns: a value of its own, or whatever
  \<^verbatim>\<open>pd.Timestamp(ts).timestamp()\<close> gives for \<open>ts\<close>. The latter is computed by pandas,
  which is no part of the sources, and is left as it stands.
\<close>

datatype normalized = Returned pyval | PandasTimestamp pyval

text \<open>\<^verbatim>\<open>timestamp_normalize\<close>\<close>

definition timestamp_normalize :: "exchange \<Rightarrow> pyval \<Rightarrow> error + normalized" where
  "timestamp_normalize exchange ts =
     (if exchange \<in> {BITMEX, COINBASE, HITBTC, OKCOIN, OKEX, BYBIT, FTX}
        then Inr (PandasTimestamp ts)
      else if exchange \<in> {HUOBI, HUOBI_US, HUOBI_DM, BITFINEX, COINBENE, DERIBIT, BINANCE, GEMINI}
        then map_sum id Returned (truediv_float ts 1000)
      else if exchange \<in> {BITSTAMP}
        then map_sum id Returned (truediv_float ts 1000000)
      else Inr (Returned ts))"

subsection \<open>Channels\<close>

text \<open>
  A value of the channel table: a native channel name, a number (Poloniex), one of the
  canonical constants used as its own native name, or the sentinel.
\<close>

datatype table_value = Str string | Num int | Canonical channel | UNSUPPORTED

text \<open>
  What \<^verbatim>\<open>feed_to_exchange\<close> is called with: one of the canonical channel constants, or
  any other string.
\<close>

datatype feed = Channel channel | Name string

text \<open>\<^verbatim>\<open>_feed_to_exchange_map\<close>, entry for entry.\<close>

definition feed_to_exchange_map :: "(channel \<times> (exchange \<times> table_value) list) list" where
  "feed_to_exchange_map =
   [(L2_BOOK,
      [(BITFINEX, Str ''book-P0-F0-100''), (POLONIEX, Canonical L2_BOOK),
       (HITBTC, Str ''subscribeOrderbook''), (COINBASE, Str ''level2''),
       (BITMEX, Str ''orderBookL2''), (BITSTAMP, Str ''order_book''),
       (KRAKEN, Str ''book''), (KRAKEN_FUTURES, Str ''book''), (BINANCE, Str ''depth''),
       (EXX, Str ''ENTRUST_ADD''), (HUOBI, Str ''depth.step0''),
       (HUOBI_US, Str ''depth.step0''), (HUOBI_DM, Str ''depth.step0''),
       (OKCOIN, Str ''spot/depth''), (OKEX, Str ''spot/depth''),
       (COINBENE, Canonical L2_BOOK), (DERIBIT, Str ''book''),
       (BYBIT, Str ''order_book_25L1''), (FTX, Str ''orderbook''),
       (GEMINI, Canonical L2_BOOK)]),
    (L3_BOOK,
      [(BITFINEX, Str ''book-R0-F0-100''), (BITSTAMP, Str ''detail_order_book''),
       (HITBTC, UNSUPPORTED), (COINBASE, Str ''full''), (BITMEX, UNSUPPORTED),
       (POLONIEX, UNSUPPORTED), (KRAKEN, UNSUPPORTED), (KRAKEN_FUTURES, UNSUPPORTED),
       (BINANCE, UNSUPPORTED), (EXX, UNSUPPORTED), (HUOBI, UNSUPPORTED),
       (HUOBI_US, UNSUPPORTED), (HUOBI_DM, UNSUPPORTED), (OKCOIN, UNSUPPORTED),
       (OKEX, UNSUPPORTED), (BYBIT, UNSUPPORTED), (FTX, UNSUPPORTED),
       (GEMINI, UNSUPPORTED)]),
    (TRADES,
      [(POLONIEX, Canonical TRADES), (HITBTC, Str ''subscribeTrades''),
       (BITSTAMP, Str ''live_trades''), (BITFINEX, Str ''trades''),
       (COINBASE, Str ''matches''), (BITMEX, Str ''trade''), (KRAKEN, Str ''trade''),
       (KRAKEN_FUTURES, Str ''trade''), (BINANCE, Str ''aggTrade''), (EXX, Str ''TRADE''),
       (HUOBI, Str ''trade.detail''), (HUOBI_US, Str ''trade.detail''),
       (HUOBI_DM, Str ''trade.detail''), (OKCOIN, Str ''spot/trade''),
       (OKEX, Str ''spot/trade''), (COINBENE, Canonical TRADES), (DERIBIT, Str ''trades''),
       (BYBIT, Str ''trade''), (FTX, Str ''trades''), (GEMINI, Canonical TRADES)]),
    (TICKER,
      [(POLONIEX, Num 1002), (HITBTC, Str ''subscribeTicker''), (BITFINEX, Str ''ticker''),
       (BITSTAMP, UNSUPPORTED), (COINBASE, Str ''ticker''), (BITMEX, UNSUPPORTED),
       (KRAKEN, Canonical TICKER), (KRAKEN_FUTURES, Str ''ticker_lite''),
       (BINANCE, Str ''ticker''), (HUOBI, UNSUPPORTED), (HUOBI_US, UNSUPPORTED),
       (HUOBI_DM, UNSUPPORTED), (OKCOIN, Str ''spot/ticker''), (OKEX, Str ''spot/ticker''),
       (COINBENE, Canonical TICKER), (DERIBIT, Str ''ticker''), (BYBIT, UNSUPPORTED),
       (FTX, Str ''ticker''), (GEMINI, UNSUPPORTED)]),
    (VOLUME, [(POLONIEX, Num 1003)]),
    (FUNDING, [(BITMEX, Str ''funding''), (BITFINEX, Str ''trades'')]),
    (TRADES_SWAP, [(OKEX, Str ''swap/trade'')]),
    (TICKER_SWAP, [(OKEX, Str ''swap/ticker'')]),
    (L2_BOOK_SWAP, [(OKEX, Str ''swap/depth'')]),
    (INSTRUMENT, [(BITMEX, Str ''instrument'')])]"

text \<open>
  \<^verbatim>\<open>_feed_to_exchange_map[feed]\<close>: the keys of the table are the canonical constants, so
  a string that is none of them is not a key.
\<close>

definition feed_row :: "feed \<Rightarrow> (exchange \<times> table_value) list option" where
  "feed_row f = (case f of Channel c \<Rightarrow> map_of feed_to_exchange_map c | Name n \<Rightarrow> None)"

text \<open>\<^verbatim>\<open>LOG.error(f"{feed} is not supported on {exchange}")\<close>\<close>

datatype log_line = LogError feed exchange

text \<open>
  \<^verbatim>\<open>feed_to_exchange\<close>: what was logged, and the value returned or the error raised. The
  first branch is taken for a feed that is not a key of the table, which is then a
  string handed to \<^verbatim>\<open>pair_std_to_exchange\<close>.
\<close>

definition feed_to_exchange ::
  "registry \<Rightarrow> exchange \<Rightarrow> feed \<Rightarrow> log_line list \<times> (error + table_value)" where
  "feed_to_exchange reg exchange f =
     (case (if exchange = POLONIEX then (case f of Name n \<Rightarrow> Some n | Channel c \<Rightarrow> None) else None) of
        Some n \<Rightarrow>
          (case pair_std_to_exchange reg n POLONIEX of
             Inl err \<Rightarrow> ([], Inl err)
           | Inr native \<Rightarrow> ([], Inr (Str native)))
      | None \<Rightarrow>
          (case feed_row f of None \<Rightarrow> ([], Inl KeyError) | Some row \<Rightarrow>
           (case map_of row exchange of None \<Rightarrow> ([], Inl KeyError) | Some ret \<Rightarrow>
              if ret = UNSUPPORTED then ([LogError f exchange], Inl UnsupportedDataFeed)
              else ([], Inr ret))))"

section \<open>Properties of the order book engine\<close>

subsection \<open>Reset\<close>

lemma reset_pairs_fields:
  "partial_received (reset_pairs s ps) = partial_received s"
  "pairs (reset_pairs s ps) = pairs s"
  "l2_book (reset_pairs s ps) p = (if p \<in> set ps then Some (\<lambda>sd. Map.empty) else l2_book s p)"
  "order_id (reset_pairs s ps) p = (if p \<in> set ps then Some (\<lambda>sd. Map.empty) else order_id s p)"
  by (induction s ps rule: reset_pairs.induct) auto

lemma reset_fields:
  "partial_received (reset s) = False"
  "pairs (reset s) = pairs s"
  "l2_book (reset s) p = (if p \<in> set (pairs s) then Some (\<lambda>sd. Map.empty) else l2_book s p)"
  "order_id (reset s) p = (if p \<in> set (pairs s) then Some (\<lambda>sd. Map.empty) else None)"
  by (simp_all add: reset_def reset_pairs_fields)

subsection \<open>Evaluating a call\<close>

lemmas book_defs =
  book_def dispatch_def apply_data_def insert_step_def update_step_def delete_step_def
  side_of_def Let_def

subsection \<open>The scenario\<close>

text \<open>
  C4. In a session that subscribes XBTUSD, starting from a reset, the partial and then
  the update give exactly two emissions, the first forced with delta
  \<open>{bid: [(100, 5)]}\<close>, the second not forced with delta \<open>{bid: [(100, 3)]}\<close>, and leave
  the bid book of XBTUSD equal to \<open>{100: 3}\<close>. The delete after them emits, not forced,
  the delta \<open>{bid: [(100, 0)]}\<close> and leaves no level at price 100.
\<close>

theorem scenario_partial_update_delete:
  assumes "''XBTUSD'' \<in> set (pairs s0)"
  shows "map snd (run_book (reset s0) [(scenario_partial, t1), (scenario_update, t2)])
           = [Inr (Emitted \<lparr>em_pair = Some ''XBTUSD'', em_channel = L2_BOOK, em_forced = True,
                             em_delta = ([(100, 5)], []), em_timestamp = t1\<rparr>),
              Inr (Emitted \<lparr>em_pair = Some ''XBTUSD'', em_channel = L2_BOOK, em_forced = False,
                             em_delta = ([(100, 3)], []), em_timestamp = t2\<rparr>)]
       \<and> book_level (fst (last (run_book (reset s0)
             [(scenario_partial, t1), (scenario_update, t2)]))) ''XBTUSD'' BID = [100 \<mapsto> 3]
       \<and> map snd (run_book (reset s0)
             [(scenario_partial, t1), (scenario_update, t2), (scenario_delete, t3)])
           = [Inr (Emitted \<lparr>em_pair = Some ''XBTUSD'', em_channel = L2_BOOK, em_forced = True,
                             em_delta = ([(100, 5)], []), em_timestamp = t1\<rparr>),
              Inr (Emitted \<lparr>em_pair = Some ''XBTUSD'', em_channel = L2_BOOK, em_forced = False,
                             em_delta = ([(100, 3)], []), em_timestamp = t2\<rparr>),
              Inr (Emitted \<lparr>em_pair = Some ''XBTUSD'', em_channel = L2_BOOK, em_forced = False,
                             em_delta = ([(100, 0)], []), em_timestamp = t3\<rparr>)]
       \<and> book_level (fst (last (run_book (reset s0)
             [(scenario_partial, t1), (scenario_update, t2), (scenario_delete, t3)])))
           ''XBTUSD'' BID = Map.empty"
  using assms
  by (simp add: scenario_partial_def scenario_update_def scenario_delete_def book_defs
        reset_fields book_level_def fun_eq_iff)

theorem scenario_partial_update_delete_witness:
  "''XBTUSD'' \<in> set (pairs \<lparr>pairs = [''XBTUSD''], partial_received = True,
                              l2_book = Map.empty, order_id = Map.empty\<rparr>)
   \<and> map snd (run_book (reset \<lparr>pairs = [''XBTUSD''], partial_received = True,
                                l2_book = Map.empty, order_id = Map.empty\<rparr>)
        [(scenario_partial, 1), (scenario_update, 2), (scenario_delete, 3)])
      = [Inr (Emitted \<lparr>em_pair = Some ''XBTUSD'', em_channel = L2_BOOK, em_forced = True,
                        em_delta = ([(100, 5)], []), em_timestamp = 1\<rparr>),
         Inr (Emitted \<lparr>em_pair = Some ''XBTUSD'', em_channel = L2_BOOK, em_forced = False,
                        em_delta = ([(100, 3)], []), em_timestamp = 2\<rparr>),
         Inr (Emitted \<lparr>em_pair = Some ''XBTUSD'', em_channel = L2_BOOK, em_forced = False,
                        em_delta = ([(100, 0)], []), em_timestamp = 3\<rparr>)]"
  using scenario_partial_update_delete
    [of "\<lparr>pairs = [''XBTUSD''], partial_received = True,
          l2_book = Map.empty, order_id = Map.empty\<rparr>" 1 2 3]
  by simp

subsection \<open>Before the first partial\<close>

text \<open>
  C3. While \<open>partial_received\<close> is false, a message whose action is anything but
  \<^verbatim>\<open>partial\<close> (insert, update, delete or an unknown action) is a no-op: the session,
  that is the book, the index and \<open>partial_received\<close>, comes back as it was, and the call
  returns at the bare \<^verbatim>\<open>return\<close>, without calling the callback and without raising.
\<close>

theorem discarded_before_partial:
  assumes "\<not> partial_received s" and "m_action m = Some a" and "a \<noteq> ''partial''"
  shows "book s m ts = (s, Inr Discarded)"
  using assms by (simp add: book_def)

theorem discarded_before_partial_witness:
  "book \<lparr>pairs = [''XBTUSD''], partial_received = False,
         l2_book = Map.empty, order_id = Map.empty\<rparr>
        \<lparr>m_action = Some ''update'',
         m_data = Some [\<lparr>e_symbol = Some ''XBTUSD'', e_side = Some ''Buy'', e_id = Some 1,
                         e_price = None, e_size = Some 3\<rparr>]\<rparr> 7
   = (\<lparr>pairs = [''XBTUSD''], partial_received = False,
        l2_book = Map.empty, order_id = Map.empty\<rparr>, Inr Discarded)"
  using discarded_before_partial
    [of "\<lparr>pairs = [''XBTUSD''], partial_received = False,
          l2_book = Map.empty, order_id = Map.empty\<rparr>"
        "\<lparr>m_action = Some ''update'',
          m_data = Some [\<lparr>e_symbol = Some ''XBTUSD'', e_side = Some ''Buy'', e_id = Some 1,
                          e_price = None, e_size = Some 3\<rparr>]\<rparr>"
        "''update''" 7]
  by simp

subsection \<open>A message without entries\<close>

text \<open>
  C10. A message whose action is \<^verbatim>\<open>partial\<close>, \<^verbatim>\<open>insert\<close>, \<^verbatim>\<open>update\<close> or \<^verbatim>\<open>delete\<close>
  and whose data array is empty (with \<open>partial_received\<close> already true for the three
  others) still calls the callback, once: with \<open>None\<close> for the pair, which no entry has
  bound, and with a delta that is empty on both sides. Book and index stay as they are.
\<close>

theorem empty_data_still_emits:
  assumes "m_action m = Some a"
    and "a \<in> {''partial'', ''insert'', ''update'', ''delete''}"
    and "m_data m = Some []"
    and "a \<noteq> ''partial'' \<longrightarrow> partial_received s"
  shows "book s m ts =
           (s\<lparr>partial_received := True\<rparr>,
            Inr (Emitted \<lparr>em_pair = None, em_channel = L2_BOOK,
                          em_forced = (\<not> partial_received s), em_delta = ([], []),
                          em_timestamp = ts\<rparr>))"
  using assms by (auto simp add: book_def dispatch_def apply_data_def)

theorem empty_data_still_emits_witness:
  "book \<lparr>pairs = [''XBTUSD''], partial_received = True,
         l2_book = Map.empty, order_id = Map.empty\<rparr>
        \<lparr>m_action = Some ''delete'', m_data = Some []\<rparr> 7
   = (\<lparr>pairs = [''XBTUSD''], partial_received = True,
        l2_book = Map.empty, order_id = Map.empty\<rparr>,
      Inr (Emitted \<lparr>em_pair = None, em_channel = L2_BOOK, em_forced = False,
                    em_delta = ([], []), em_timestamp = 7\<rparr>))"
  using empty_data_still_emits
    [of "\<lparr>m_action = Some ''delete'', m_data = Some []\<rparr>" "''delete''"
        "\<lparr>pairs = [''XBTUSD''], partial_received = True,
          l2_book = Map.empty, order_id = Map.empty\<rparr>" 7]
  by simp

subsection \<open>The forced flag\<close>

lemma step_partial_received:
  "partial_received (fst (insert_step s d e)) = partial_received s"
  "partial_received (fst (update_step s d e)) = partial_received s"
  "partial_received (fst (delete_step s d e)) = partial_received s"
  by (simp_all add: insert_step_def update_step_def delete_step_def Let_def split: option.splits)

lemma entries_loop_partial_received:
  assumes "\<And>s d e. partial_received (fst (step s d e)) = partial_received s"
  shows "partial_received (fst (entries_loop step s p d es)) = partial_received s"
proof (induction es arbitrary: s p d)
  case Nil
  then show ?case by simp
next
  case (Cons e es)
  show ?case
  proof (cases "step s d e")
    case (Pair s' r)
    with assms [of s d e] have s': "partial_received s' = partial_received s" by simp
    show ?thesis
    proof (cases r)
      case (Inl err)
      with Pair s' show ?thesis by simp
    next
      case (Inr pd)
      with Pair s' Cons.IH [of s' "Some (fst pd)" "snd pd"] show ?thesis
        by (cases pd) simp
    qed
  qed
qed

lemma apply_data_partial_received:
  assumes "\<And>s d e. partial_received (fst (step s d e)) = partial_received s"
  shows "partial_received (fst (apply_data step s forced m ts)) = partial_received s"
proof (cases "m_data m")
  case None
  then show ?thesis by (simp add: apply_data_def)
next
  case (Some es)
  show ?thesis
  proof (cases "entries_loop step s None ([], []) es")
    case (Pair s' r)
    have "partial_received (fst (entries_loop step s None ([], []) es)) = partial_received s"
      by (rule entries_loop_partial_received) (rule assms)
    with Pair have "partial_received s' = partial_received s" by simp
    with Some Pair show ?thesis
      by (cases r) (auto simp add: apply_data_def)
  qed
qed

lemma dispatch_partial_received:
  "partial_received (fst (dispatch s forced m ts)) = partial_received s"
  by (simp add: dispatch_def apply_data_partial_received step_partial_received split: option.splits)

lemma book_partial_received:
  "partial_received (fst (book s m ts)) = (partial_received s \<or> m_action m = Some ''partial'')"
  by (auto simp add: book_def dispatch_partial_received split: option.splits)

lemma apply_data_forced:
  "apply_data step s forced m ts = (s', Inr (Emitted em)) \<Longrightarrow> em_forced em = forced"
  by (auto simp add: apply_data_def split: option.splits prod.splits sum.splits)

lemma dispatch_forced:
  "dispatch s forced m ts = (s', Inr (Emitted em)) \<Longrightarrow> em_forced em = forced"
  by (auto simp add: dispatch_def split: option.splits if_splits dest: apply_data_forced)

lemma book_forced:
  assumes "book s m ts = (s', Inr (Emitted em))"
  shows "em_forced em = (\<not> partial_received s)"
    and "\<not> partial_received s \<Longrightarrow> m_action m = Some ''partial''"
  using assms
  by (auto simp add: book_def split: option.splits if_splits dest: dispatch_forced)

lemma run_book_forced:
  "i < length ms \<Longrightarrow> snd (run_book s ms ! i) = Inr (Emitted em) \<Longrightarrow>
     em_forced em = (\<not> partial_received s \<and> first_accepted ms i)"
proof (induction ms arbitrary: s i)
  case Nil
  then show ?case by simp
next
  case (Cons x ms)
  show ?case
  proof (cases i)
    case 0
    with Cons.prems have "book s (fst x) (snd x) = (fst (book s (fst x) (snd x)), Inr (Emitted em))"
      by (simp add: Let_def prod_eq_iff)
    from book_forced [OF this] 0 show ?thesis
      by (auto simp add: first_accepted_def)
  next
    case (Suc k)
    let ?s' = "fst (book s (fst x) (snd x))"
    from Suc Cons.prems have "k < length ms" "snd (run_book ?s' ms ! k) = Inr (Emitted em)"
      by (simp_all add: Let_def)
    from Cons.IH [OF this]
    have ih: "em_forced em = (\<not> partial_received ?s' \<and> first_accepted ms k)" .
    have fa: "first_accepted (x # ms) (Suc k) =
                (m_action (fst x) \<noteq> Some ''partial'' \<and> first_accepted ms k)"
      by (auto simp add: first_accepted_def All_less_Suc2)
    show ?thesis
      unfolding Suc fa ih book_partial_received by auto
  qed
qed

text \<open>
  C5. In a session run from a reset, an emission is forced exactly when it comes from
  the first accepted message, which is the first message whose action is \<^verbatim>\<open>partial\<close>;
  every later emission, those of later partials among them, is not forced.
\<close>

theorem forced_iff_first_accepted:
  assumes "i < length ms"
    and "snd (run_book (reset s0) ms ! i) = Inr (Emitted em)"
  shows "em_forced em = first_accepted ms i"
  using run_book_forced [OF assms] by (simp add: reset_fields)

theorem forced_iff_first_accepted_witness:
  "snd (run_book (reset xbt_session)
          [(message ''insert'' [], 1), (message ''partial'' [], 2), (message ''partial'' [], 3)] ! 1)
     = Inr (Emitted \<lparr>em_pair = None, em_channel = L2_BOOK, em_forced = True,
                      em_delta = ([], []), em_timestamp = 2\<rparr>)
   \<and> first_accepted
        [(message ''insert'' [], 1), (message ''partial'' [], 2), (message ''partial'' [], 3)] 1
   \<and> snd (run_book (reset xbt_session)
          [(message ''insert'' [], 1), (message ''partial'' [], 2), (message ''partial'' [], 3)] ! 2)
     = Inr (Emitted \<lparr>em_pair = None, em_channel = L2_BOOK, em_forced = False,
                      em_delta = ([], []), em_timestamp = 3\<rparr>)
   \<and> \<not> first_accepted
        [(message ''insert'' [], 1), (message ''partial'' [], 2), (message ''partial'' [], 3)] 2"
proof -
  let ?ms = "[(message ''insert'' [], 1), (message ''partial'' [], 2), (message ''partial'' [], 3)]"
  have e1: "snd (run_book (reset xbt_session) ?ms ! 1)
              = Inr (Emitted \<lparr>em_pair = None, em_channel = L2_BOOK, em_forced = True,
                               em_delta = ([], []), em_timestamp = 2\<rparr>)"
    by (simp add: message_def xbt_session_def book_defs reset_fields)
  have e2: "snd (run_book (reset xbt_session) ?ms ! 2)
              = Inr (Emitted \<lparr>em_pair = None, em_channel = L2_BOOK, em_forced = False,
                               em_delta = ([], []), em_timestamp = 3\<rparr>)"
    by (simp add: message_def xbt_session_def book_defs reset_fields)
  have "1 < length ?ms" and "2 < length ?ms"
    by simp_all
  from forced_iff_first_accepted [OF this(1) e1] forced_iff_first_accepted [OF this(2) e2] e1 e2
  show ?thesis by simp
qed

subsection \<open>An update or delete of an unknown order\<close>

lemma entries_loop_append:
  "entries_loop step s p d (pre @ rest) =
     (case entries_loop step s p d pre of
        (s1, Inl err) \<Rightarrow> (s1, Inl err)
      | (s1, Inr (p1, d1)) \<Rightarrow> entries_loop step s1 p1 d1 rest)"
  by (induction pre arbitrary: s p d) (auto split: prod.splits sum.splits)

lemma unknown_id_step:
  assumes "e_symbol e = Some pair" and "e_side e = Some sd" and "e_id e = Some oid"
    and "index_price s pair (side_of sd) oid = None"
  shows "update_step s d e = (s, Inl KeyError)" and "delete_step s d e = (s, Inl KeyError)"
  using assms
  by (auto simp add: update_step_def delete_step_def index_price_def split: option.splits)

text \<open>
  C2, as stated, fails. After a partial with order 1 at price 100 and size 5, an update
  whose entries are order 1 with size 3 and then the unknown order 2 raises, and what it
  raises is \<^verbatim>\<open>KeyError\<close>; the entry before the unknown one has been applied all the same:
  the level at 100 has size 3 and no longer 5.
\<close>

theorem unknown_id_keeps_earlier_entries_counterexample:
  "partial_received (fst (run_book (reset xbt_session)
      [(message ''partial'' [buy 1 (Some 100) (Some 5)], 1),
       (message ''update'' [buy 1 None (Some 3), buy 2 None (Some 7)], 2)] ! 0))
   \<and> index_price (fst (run_book (reset xbt_session)
      [(message ''partial'' [buy 1 (Some 100) (Some 5)], 1),
       (message ''update'' [buy 1 None (Some 3), buy 2 None (Some 7)], 2)] ! 0))
        ''XBTUSD'' BID 2 = None
   \<and> book_level (fst (run_book (reset xbt_session)
      [(message ''partial'' [buy 1 (Some 100) (Some 5)], 1),
       (message ''update'' [buy 1 None (Some 3), buy 2 None (Some 7)], 2)] ! 0))
        ''XBTUSD'' BID 100 = Some 5
   \<and> snd (run_book (reset xbt_session)
      [(message ''partial'' [buy 1 (Some 100) (Some 5)], 1),
       (message ''update'' [buy 1 None (Some 3), buy 2 None (Some 7)], 2)] ! 1)
        = Inl KeyError
   \<and> book_level (fst (run_book (reset xbt_session)
      [(message ''partial'' [buy 1 (Some 100) (Some 5)], 1),
       (message ''update'' [buy 1 None (Some 3), buy 2 None (Some 7)], 2)] ! 1))
        ''XBTUSD'' BID 100 = Some 3
   \<and> fst (run_book (reset xbt_session)
      [(message ''partial'' [buy 1 (Some 100) (Some 5)], 1),
       (message ''update'' [buy 1 None (Some 3), buy 2 None (Some 7)], 2)] ! 1)
      \<noteq> fst (run_book (reset xbt_session)
      [(message ''partial'' [buy 1 (Some 100) (Some 5)], 1),
       (message ''update'' [buy 1 None (Some 3), buy 2 None (Some 7)], 2)] ! 0)"
proof -
  let ?ms = "[(message ''partial'' [buy 1 (Some 100) (Some 5)], 1),
              (message ''update'' [buy 1 None (Some 3), buy 2 None (Some 7)], 2)]"
  have facts:
    "partial_received (fst (run_book (reset xbt_session) ?ms ! 0))"
    "index_price (fst (run_book (reset xbt_session) ?ms ! 0)) ''XBTUSD'' BID 2 = None"
    "book_level (fst (run_book (reset xbt_session) ?ms ! 0)) ''XBTUSD'' BID 100 = Some 5"
    "snd (run_book (reset xbt_session) ?ms ! 1) = Inl KeyError"
    "book_level (fst (run_book (reset xbt_session) ?ms ! 1)) ''XBTUSD'' BID 100 = Some 3"
    by (simp_all add: message_def buy_def xbt_session_def book_defs reset_fields
          book_level_def index_price_def)
  from facts(3,5) have "fst (run_book (reset xbt_session) ?ms ! 1)
                          \<noteq> fst (run_book (reset xbt_session) ?ms ! 0)"
    by auto
  with facts show ?thesis by blast
qed

text \<open>
  C2, amended. When \<open>partial_received\<close> is true and an update or delete message has an
  entry whose order id is not in the index of its pair and side at the moment the loop
  reaches it, the call raises \<^verbatim>\<open>KeyError\<close> and emits nothing; the session is left as the
  entries before that one have made it, and is unchanged when there is none before it.
\<close>

theorem unknown_id_raises_after_prefix:
  assumes "partial_received s"
    and "(a = ''update'' \<and> step = update_step) \<or> (a = ''delete'' \<and> step = delete_step)"
    and "m_action m = Some a"
    and "m_data m = Some (pre @ e # post)"
    and "entries_loop step s None ([], []) pre = (s1, Inr (p1, d1))"
    and "e_symbol e = Some pair" and "e_side e = Some sd" and "e_id e = Some oid"
    and "index_price s1 pair (side_of sd) oid = None"
  shows "book s m ts = (s1, Inl KeyError) \<and> (pre = [] \<longrightarrow> s1 = s)"
proof -
  have "step s1 d1 e = (s1, Inl KeyError)"
    using assms(2,6-9) unknown_id_step [of e pair sd oid s1 d1] by auto
  with assms(5) have "entries_loop step s None ([], []) (pre @ e # post) = (s1, Inl KeyError)"
    by (simp add: entries_loop_append)
  with assms(4) have "apply_data step s False m ts = (s1, Inl KeyError)"
    by (simp add: apply_data_def)
  with assms(1-3) have "book s m ts = (s1, Inl KeyError)"
    by (auto simp add: book_def dispatch_def)
  moreover have "pre = [] \<longrightarrow> s1 = s"
    using assms(5) by auto
  ultimately show ?thesis by simp
qed

theorem unknown_id_raises_after_prefix_witness:
  "partial_received
     \<lparr>pairs = [''XBTUSD''], partial_received = True,
      l2_book = [''XBTUSD'' \<mapsto> (\<lambda>sd. Map.empty)(BID := [100 \<mapsto> 5])],
      order_id = [''XBTUSD'' \<mapsto> (\<lambda>sd. Map.empty)(BID := [1 \<mapsto> 100])]\<rparr>
   \<and> index_price
     \<lparr>pairs = [''XBTUSD''], partial_received = True,
      l2_book = [''XBTUSD'' \<mapsto> (\<lambda>sd. Map.empty)(BID := [100 \<mapsto> 3])],
      order_id = [''XBTUSD'' \<mapsto> (\<lambda>sd. Map.empty)(BID := [1 \<mapsto> 100])]\<rparr>
       ''XBTUSD'' (side_of ''Buy'') 2 = None
   \<and> book
     \<lparr>pairs = [''XBTUSD''], partial_received = True,
      l2_book = [''XBTUSD'' \<mapsto> (\<lambda>sd. Map.empty)(BID := [100 \<mapsto> 5])],
      order_id = [''XBTUSD'' \<mapsto> (\<lambda>sd. Map.empty)(BID := [1 \<mapsto> 100])]\<rparr>
     (message ''update'' ([buy 1 None (Some 3)] @ buy 2 None (Some 7) # [])) 7
     = (\<lparr>pairs = [''XBTUSD''], partial_received = True,
         l2_book = [''XBTUSD'' \<mapsto> (\<lambda>sd. Map.empty)(BID := [100 \<mapsto> 3])],
         order_id = [''XBTUSD'' \<mapsto> (\<lambda>sd. Map.empty)(BID := [1 \<mapsto> 100])]\<rparr>,
        Inl KeyError)"
proof -
  let ?s = "\<lparr>pairs = [''XBTUSD''], partial_received = True,
      l2_book = [''XBTUSD'' \<mapsto> (\<lambda>sd. Map.empty)(BID := [100 \<mapsto> 5])],
      order_id = [''XBTUSD'' \<mapsto> (\<lambda>sd. Map.empty)(BID := [1 \<mapsto> 100::rat])]\<rparr>"
  let ?s1 = "\<lparr>pairs = [''XBTUSD''], partial_received = True,
      l2_book = [''XBTUSD'' \<mapsto> (\<lambda>sd. Map.empty)(BID := [100 \<mapsto> 3])],
      order_id = [''XBTUSD'' \<mapsto> (\<lambda>sd. Map.empty)(BID := [1 \<mapsto> 100::rat])]\<rparr>"
  let ?m = "message ''update'' ([buy 1 None (Some 3)] @ buy 2 None (Some 7) # [])"
  have h1: "partial_received ?s"
    by simp
  have h2: "(''update'' = ''update'' \<and> update_step = update_step)
          \<or> (''update'' = ''delete'' \<and> update_step = delete_step)"
    by simp
  have h3: "m_action ?m = Some ''update''"
    and h4: "m_data ?m = Some ([buy 1 None (Some 3)] @ buy 2 None (Some 7) # [])"
    by (simp_all add: message_def)
  have h5: "entries_loop update_step ?s None ([], []) [buy 1 None (Some 3)]
              = (?s1, Inr (Some ''XBTUSD'', ([(100, 3)], [])))"
    by (simp add: buy_def update_step_def side_of_def)
  have h6: "e_symbol (buy 2 None (Some 7)) = Some ''XBTUSD''"
    and h7: "e_side (buy 2 None (Some 7)) = Some ''Buy''"
    and h8: "e_id (buy 2 None (Some 7)) = Some 2"
    by (simp_all add: buy_def)
  have h9: "index_price ?s1 ''XBTUSD'' (side_of ''Buy'') 2 = None"
    by (simp add: index_price_def side_of_def)
  from unknown_id_raises_after_prefix [OF h1 h2 h3 h4 h5 h6 h7 h8 h9, of 7] h1 h9
  show ?thesis by simp
qed

subsection \<open>The consistency of book and index\<close>

lemma well_kept_consistent: "well_kept s \<Longrightarrow> book_consistent s"
  unfolding well_kept_def side_kept_def book_consistent_def by blast

lemma side_keptD:
  assumes "side_kept ix bk"
  shows "ix oid = Some price \<Longrightarrow> bk price \<noteq> None"
    and "bk price \<noteq> None \<Longrightarrow> \<exists>oid. ix oid = Some price"
    and "ix oid = Some price \<Longrightarrow> ix oid' = Some price \<Longrightarrow> oid = oid'"
  using assms unfolding side_kept_def by blast+

lemma side_kept_insert:
  assumes kept: "side_kept ix bk"
    and own: "ix oid = Some price \<or> (ix oid = None \<and> bk price = None)"
  shows "side_kept (ix(oid \<mapsto> price)) (bk(price \<mapsto> sz))"
  unfolding side_kept_def
proof (intro conjI allI impI)
  fix o' p'
  assume "(ix(oid \<mapsto> price)) o' = Some p'"
  then show "(bk(price \<mapsto> sz)) p' \<noteq> None"
    using side_keptD(1) [OF kept, of o' p'] by (simp split: if_splits)
next
  fix p'
  assume level: "(bk(price \<mapsto> sz)) p' \<noteq> None"
  show "\<exists>o'. (ix(oid \<mapsto> price)) o' = Some p'"
  proof (cases "p' = price")
    case True
    then have "(ix(oid \<mapsto> price)) oid = Some p'" by simp
    then show ?thesis ..
  next
    case False
    with level have "bk p' \<noteq> None" by simp
    from side_keptD(2) [OF kept this] obtain o' where o': "ix o' = Some p'" ..
    with own False have "o' \<noteq> oid" by auto
    with o' have "(ix(oid \<mapsto> price)) o' = Some p'" by simp
    then show ?thesis ..
  qed
next
  fix o1 o2 p'
  assume a1: "(ix(oid \<mapsto> price)) o1 = Some p'" and a2: "(ix(oid \<mapsto> price)) o2 = Some p'"
  have other: "k = oid" if "ix k = Some price" for k
  proof -
    from side_keptD(1) [OF kept that] have "bk price \<noteq> None" .
    with own have "ix oid = Some price" by auto
    from side_keptD(3) [OF kept that this] show ?thesis .
  qed
  show "o1 = o2"
  proof (cases "o1 = oid")
    case True
    with a1 have "p' = price" by simp
    show ?thesis
    proof (cases "o2 = oid")
      case True
      with \<open>o1 = oid\<close> show ?thesis by simp
    next
      case False
      with a2 \<open>p' = price\<close> have "ix o2 = Some price" by simp
      from other [OF this] False show ?thesis by simp
    qed
  next
    case False
    with a1 have i1: "ix o1 = Some p'" by simp
    show ?thesis
    proof (cases "o2 = oid")
      case True
      with a2 have "p' = price" by simp
      with i1 have "ix o1 = Some price" by simp
      from other [OF this] False show ?thesis by simp
    next
      case o2: False
      with a2 have "ix o2 = Some p'" by simp
      from side_keptD(3) [OF kept i1 this] show ?thesis .
    qed
  qed
qed

lemma side_kept_delete:
  assumes kept: "side_kept ix bk" and known: "ix oid = Some price"
  shows "side_kept (ix(oid := None)) (bk(price := None))"
  unfolding side_kept_def
proof (intro conjI allI impI)
  fix o' p'
  assume a: "(ix(oid := None)) o' = Some p'"
  then have o': "o' \<noteq> oid" "ix o' = Some p'" by (simp_all split: if_splits)
  have "p' \<noteq> price"
  proof
    assume "p' = price"
    with o' have "ix o' = Some price" by simp
    from side_keptD(3) [OF kept this known] o' show False by simp
  qed
  with side_keptD(1) [OF kept o'(2)] show "(bk(price := None)) p' \<noteq> None" by simp
next
  fix p'
  assume "(bk(price := None)) p' \<noteq> None"
  then have p': "p' \<noteq> price" "bk p' \<noteq> None" by (simp_all split: if_splits)
  from side_keptD(2) [OF kept p'(2)] obtain o' where o': "ix o' = Some p'" ..
  with known p'(1) have "o' \<noteq> oid" by auto
  with o' have "(ix(oid := None)) o' = Some p'" by simp
  then show "\<exists>o'. (ix(oid := None)) o' = Some p'" ..
next
  fix o1 o2 p'
  assume "(ix(oid := None)) o1 = Some p'" "(ix(oid := None)) o2 = Some p'"
  then have "ix o1 = Some p'" "ix o2 = Some p'" by (simp_all split: if_splits)
  from side_keptD(3) [OF kept this] show "o1 = o2" .
qed


lemma well_kept_keys: "well_kept s \<Longrightarrow> (l2_book s pair = None) = (order_id s pair = None)"
  unfolding well_kept_def by (metis domIff)

lemma well_kept_side: "well_kept s \<Longrightarrow> side_kept (index_price s pair sd) (book_level s pair sd)"
  unfolding well_kept_def by blast

lemma well_kept_change:
  assumes "well_kept s"
    and "dom (l2_book s') = dom (l2_book s)" and "dom (order_id s') = dom (order_id s)"
    and "\<And>pair' sd'. (pair', sd') \<noteq> (pair, sd) \<Longrightarrow>
           index_price s' pair' sd' = index_price s pair' sd'
         \<and> book_level s' pair' sd' = book_level s pair' sd'"
    and "side_kept (index_price s' pair sd) (book_level s' pair sd)"
  shows "well_kept s'"
  unfolding well_kept_def
proof (intro conjI allI)
  show "dom (l2_book s') = dom (order_id s')"
    using assms(1-3) by (simp add: well_kept_def)
next
  fix pair' sd'
  show "side_kept (index_price s' pair' sd') (book_level s' pair' sd')"
  proof (cases "(pair', sd') = (pair, sd)")
    case True
    with assms(5) show ?thesis by simp
  next
    case False
    from assms(4) [OF this] well_kept_side [OF assms(1), of pair' sd'] show ?thesis by simp
  qed
qed

lemma put_entry_well_kept:
  assumes kept: "well_kept s" and b: "l2_book s pair \<noteq> None"
    and own: "index_price s pair sd oid = Some price
            \<or> (index_price s pair sd oid = None \<and> book_level s pair sd price = None)"
  shows "well_kept (put_entry s pair sd oid price sz)"
proof (rule well_kept_change [OF kept, where pair = pair and sd = sd])
  from b well_kept_keys [OF kept, of pair] have ix: "order_id s pair \<noteq> None" by simp
  show "dom (l2_book (put_entry s pair sd oid price sz)) = dom (l2_book s)"
    using b by (auto simp add: put_entry_def)
  show "dom (order_id (put_entry s pair sd oid price sz)) = dom (order_id s)"
    using ix by (auto simp add: put_entry_def)
  show "index_price (put_entry s pair sd oid price sz) pair' sd' = index_price s pair' sd'
      \<and> book_level (put_entry s pair sd oid price sz) pair' sd' = book_level s pair' sd'"
    if "(pair', sd') \<noteq> (pair, sd)" for pair' sd'
    using that b ix by (auto simp add: put_entry_def index_price_def book_level_def fun_eq_iff)
  have "index_price (put_entry s pair sd oid price sz) pair sd = (index_price s pair sd)(oid \<mapsto> price)"
    using ix by (auto simp add: put_entry_def index_price_def fun_eq_iff)
  moreover have "book_level (put_entry s pair sd oid price sz) pair sd = (book_level s pair sd)(price \<mapsto> sz)"
    using b by (auto simp add: put_entry_def book_level_def fun_eq_iff)
  ultimately show "side_kept (index_price (put_entry s pair sd oid price sz) pair sd)
                             (book_level (put_entry s pair sd oid price sz) pair sd)"
    using side_kept_insert [OF well_kept_side [OF kept, of pair sd] own] by simp
qed

lemma drop_entry_well_kept:
  assumes kept: "well_kept s" and known: "index_price s pair sd oid = Some price"
  shows "well_kept (drop_entry s pair sd oid price)"
proof (rule well_kept_change [OF kept, where pair = pair and sd = sd])
  from known have ix: "order_id s pair \<noteq> None"
    by (auto simp add: index_price_def split: option.splits)
  with well_kept_keys [OF kept, of pair] have b: "l2_book s pair \<noteq> None" by simp
  show "dom (l2_book (drop_entry s pair sd oid price)) = dom (l2_book s)"
    using b by (auto simp add: drop_entry_def)
  show "dom (order_id (drop_entry s pair sd oid price)) = dom (order_id s)"
    using ix by (auto simp add: drop_entry_def)
  show "index_price (drop_entry s pair sd oid price) pair' sd' = index_price s pair' sd'
      \<and> book_level (drop_entry s pair sd oid price) pair' sd' = book_level s pair' sd'"
    if "(pair', sd') \<noteq> (pair, sd)" for pair' sd'
    using that b ix by (auto simp add: drop_entry_def index_price_def book_level_def fun_eq_iff)
  have "index_price (drop_entry s pair sd oid price) pair sd = (index_price s pair sd)(oid := None)"
    using ix by (auto simp add: drop_entry_def index_price_def fun_eq_iff)
  moreover have "book_level (drop_entry s pair sd oid price) pair sd = (book_level s pair sd)(price := None)"
    using b by (auto simp add: drop_entry_def book_level_def fun_eq_iff)
  ultimately show "side_kept (index_price (drop_entry s pair sd oid price) pair sd)
                             (book_level (drop_entry s pair sd oid price) pair sd)"
    using side_kept_delete [OF well_kept_side [OF kept, of pair sd] known] by simp
qed

lemma insert_step_state:
  assumes kept: "well_kept s"
  shows "fst (insert_step s d e) = s
       \<or> (\<exists>pair sd oid price sz. e_symbol e = Some pair \<and> e_side e = Some sd \<and> e_id e = Some oid
            \<and> e_price e = Some price \<and> l2_book s pair \<noteq> None
            \<and> fst (insert_step s d e) = put_entry s pair (side_of sd) oid price sz)"
proof (cases "\<exists>sd price pair sz oid b. e_side e = Some sd \<and> e_price e = Some price
                \<and> e_symbol e = Some pair \<and> e_size e = Some sz \<and> e_id e = Some oid
                \<and> l2_book s pair = Some b")
  case False
  then have "fst (insert_step s d e) = s"
    by (auto simp add: insert_step_def split: option.splits)
  then show ?thesis ..
next
  case True
  then obtain sd price pair sz oid b where e: "e_side e = Some sd" "e_price e = Some price"
      "e_symbol e = Some pair" "e_size e = Some sz" "e_id e = Some oid" "l2_book s pair = Some b"
    by blast
  with well_kept_keys [OF kept, of pair] obtain ix where ix: "order_id s pair = Some ix"
    by auto
  from e ix have "fst (insert_step s d e) = put_entry s pair (side_of sd) oid price sz"
    by (simp add: insert_step_def put_entry_def Let_def)
  with e show ?thesis by auto
qed

lemma update_step_state:
  assumes kept: "well_kept s"
  shows "fst (update_step s d e) = s
       \<or> (\<exists>pair sd oid price sz. l2_book s pair \<noteq> None
            \<and> index_price s pair (side_of sd) oid = Some price
            \<and> fst (update_step s d e) = put_entry s pair (side_of sd) oid price sz)"
proof (cases "\<exists>sd pair sz oid ix price. e_side e = Some sd \<and> e_symbol e = Some pair
                \<and> e_size e = Some sz \<and> e_id e = Some oid \<and> order_id s pair = Some ix
                \<and> ix (side_of sd) oid = Some price")
  case False
  then have "fst (update_step s d e) = s"
    by (auto simp add: update_step_def split: option.splits)
  then show ?thesis ..
next
  case True
  then obtain sd pair sz oid ix price where e: "e_side e = Some sd" "e_symbol e = Some pair"
      "e_size e = Some sz" "e_id e = Some oid" "order_id s pair = Some ix"
      "ix (side_of sd) oid = Some price"
    by blast
  with well_kept_keys [OF kept, of pair] obtain b where b: "l2_book s pair = Some b"
    by auto
  from e b have "fst (update_step s d e) = put_entry s pair (side_of sd) oid price sz"
    by (simp add: update_step_def put_entry_def)
  moreover from e have "index_price s pair (side_of sd) oid = Some price"
    by (simp add: index_price_def)
  moreover from b have "l2_book s pair \<noteq> None"
    by simp
  ultimately show ?thesis by blast
qed

lemma delete_step_state:
  assumes kept: "well_kept s"
  shows "fst (delete_step s d e) = s
       \<or> (\<exists>pair sd oid price. index_price s pair (side_of sd) oid = Some price
            \<and> fst (delete_step s d e) = drop_entry s pair (side_of sd) oid price)"
proof (cases "\<exists>sd pair oid ix price. e_symbol e = Some pair \<and> e_side e = Some sd
                \<and> e_id e = Some oid \<and> order_id s pair = Some ix
                \<and> ix (side_of sd) oid = Some price")
  case False
  then have "fst (delete_step s d e) = s"
    by (auto simp add: delete_step_def split: option.splits)
  then show ?thesis ..
next
  case True
  then obtain sd pair oid ix price where e: "e_symbol e = Some pair" "e_side e = Some sd"
      "e_id e = Some oid" "order_id s pair = Some ix" "ix (side_of sd) oid = Some price"
    by blast
  with well_kept_keys [OF kept, of pair] obtain b where b: "l2_book s pair = Some b"
    by auto
  from e have known: "index_price s pair (side_of sd) oid = Some price"
    by (simp add: index_price_def)
  from side_keptD(1) [OF well_kept_side [OF kept] known] b
  obtain old where old: "b (side_of sd) price = Some old"
    by (auto simp add: book_level_def)
  from e b old have "fst (delete_step s d e) = drop_entry s pair (side_of sd) oid price"
    by (simp add: delete_step_def drop_entry_def Let_def)
  with known show ?thesis by auto
qed

lemma insert_step_well_kept:
  assumes "well_kept s" and "opens_own_level s e"
  shows "well_kept (fst (insert_step s d e))"
  using insert_step_state [OF assms(1), of d e] assms
  by (auto simp add: opens_own_level_def intro!: put_entry_well_kept)

lemma update_step_well_kept:
  assumes "well_kept s"
  shows "well_kept (fst (update_step s d e))"
  using update_step_state [OF assms, of d e] assms
  by (auto intro!: put_entry_well_kept)

lemma delete_step_well_kept:
  assumes "well_kept s"
  shows "well_kept (fst (delete_step s d e))"
  using delete_step_state [OF assms, of d e] assms
  by (auto intro!: drop_entry_well_kept)


lemma insert_step_any_delta:
  "insert_step s d e = (s', Inl err) \<Longrightarrow> insert_step s d0 e = (s', Inl err)"
  "insert_step s d e = (s', Inr r) \<Longrightarrow> \<exists>r0. insert_step s d0 e = (s', Inr r0)"
  by (auto simp add: insert_step_def Let_def split: option.splits)

lemma insert_loop_well_kept:
  "well_kept s \<Longrightarrow> entries_open_levels s es \<Longrightarrow>
     well_kept (fst (entries_loop insert_step s p d es))"
proof (induction es arbitrary: s p d)
  case Nil
  then show ?case by simp
next
  case (Cons e es)
  from Cons.prems have own: "opens_own_level s e" by simp
  show ?case
  proof (cases "insert_step s d e")
    case (Pair s' r)
    from insert_step_well_kept [OF Cons.prems(1) own, of d] Pair
    have s': "well_kept s'" by simp
    show ?thesis
    proof (cases r)
      case (Inl err)
      with Pair s' show ?thesis by simp
    next
      case (Inr pd)
      from insert_step_any_delta(2) [of s d e s' pd "([], [])"] Pair Inr
      obtain r0 where "insert_step s ([], []) e = (s', Inr r0)" by auto
      with Cons.prems(2) have "entries_open_levels s' es" by simp
      from Cons.IH [OF s' this, of "Some (fst pd)" "snd pd"] Pair Inr show ?thesis
        by (cases pd) simp
    qed
  qed
qed

lemma entries_loop_well_kept:
  assumes step: "\<And>s d e. well_kept s \<Longrightarrow> well_kept (fst (step s d e))"
  shows "well_kept s \<Longrightarrow> well_kept (fst (entries_loop step s p d es))"
proof (induction es arbitrary: s p d)
  case Nil
  then show ?case by simp
next
  case (Cons e es)
  show ?case
  proof (cases "step s d e")
    case (Pair s' r)
    from step [OF Cons.prems, of d e] Pair have s': "well_kept s'" by simp
    show ?thesis
    proof (cases r)
      case (Inl err)
      with Pair s' show ?thesis by simp
    next
      case (Inr pd)
      from Cons.IH [OF s', of "Some (fst pd)" "snd pd"] Pair Inr show ?thesis
        by (cases pd) simp
    qed
  qed
qed

lemma apply_data_state:
  "fst (apply_data step s forced m ts) =
     (case m_data m of None \<Rightarrow> s | Some es \<Rightarrow> fst (entries_loop step s None ([], []) es))"
  by (auto simp add: apply_data_def split: option.splits prod.splits sum.splits)

lemma lookups_partial_received:
  "index_price (s\<lparr>partial_received := b\<rparr>) = index_price s"
  "book_level (s\<lparr>partial_received := b\<rparr>) = book_level s"
  by (simp_all add: fun_eq_iff index_price_def book_level_def)

lemma well_kept_partial_received [simp]:
  "well_kept (s\<lparr>partial_received := b\<rparr>) = well_kept s"
  by (simp add: well_kept_def lookups_partial_received)

lemma partial_received_again: "partial_received s \<Longrightarrow> s\<lparr>partial_received := True\<rparr> = s"
  by (cases s) simp

lemma dispatch_well_kept:
  assumes kept: "well_kept s"
    and own: "\<And>a es. m_action m = Some a \<Longrightarrow> m_data m = Some es \<Longrightarrow>
                a = ''partial'' \<or> a = ''insert'' \<Longrightarrow> entries_open_levels s es"
  shows "well_kept (fst (dispatch s forced m ts))"
proof (cases "m_action m")
  case None
  with kept show ?thesis by (simp add: dispatch_def)
next
  case (Some a)
  show ?thesis
  proof (cases "m_data m")
    case None
    with Some kept show ?thesis by (simp add: dispatch_def apply_data_state)
  next
    case es: (Some es)
    consider "a = ''partial'' \<or> a = ''insert''" | "a = ''update''" | "a = ''delete''"
      | "a \<noteq> ''partial''" "a \<noteq> ''insert''" "a \<noteq> ''update''" "a \<noteq> ''delete''"
      by blast
    then show ?thesis
    proof cases
      case 1
      from own [OF Some es 1] have "entries_open_levels s es" .
      from insert_loop_well_kept [OF kept this] Some es 1 show ?thesis
        by (auto simp add: dispatch_def apply_data_state)
    next
      case 2
      from entries_loop_well_kept [of update_step, OF update_step_well_kept kept] Some es 2
      show ?thesis by (simp add: dispatch_def apply_data_state)
    next
      case 3
      from entries_loop_well_kept [of delete_step, OF delete_step_well_kept kept] Some es 3
      show ?thesis by (simp add: dispatch_def apply_data_state)
    next
      case 4
      with Some kept show ?thesis by (simp add: dispatch_def)
    qed
  qed
qed

lemma book_well_kept:
  assumes kept: "well_kept s" and own: "msg_opens_levels s m"
  shows "well_kept (fst (book s m ts))"
proof (cases "partial_received s")
  case True
  have "well_kept (fst (dispatch s False m ts))"
  proof (rule dispatch_well_kept [OF kept])
    fix a es
    assume "m_action m = Some a" "m_data m = Some es" "a = ''partial'' \<or> a = ''insert''"
    with own True show "entries_open_levels s es"
      by (auto simp add: msg_opens_levels_def partial_received_again)
  qed
  with True show ?thesis by (simp add: book_def)
next
  case False
  show ?thesis
  proof (cases "m_action m = Some ''partial''")
    case no: False
    with False kept show ?thesis by (auto simp add: book_def split: option.splits)
  next
    case True
    have "well_kept (fst (dispatch (s\<lparr>partial_received := True\<rparr>) True m ts))"
    proof (rule dispatch_well_kept)
      show "well_kept (s\<lparr>partial_received := True\<rparr>)" using kept by simp
    next
      fix a es
      assume "m_action m = Some a" "m_data m = Some es" "a = ''partial'' \<or> a = ''insert''"
      with own True show "entries_open_levels (s\<lparr>partial_received := True\<rparr>) es"
        by (auto simp add: msg_opens_levels_def)
    qed
    with False True show ?thesis by (simp add: book_def)
  qed
qed

lemma length_run_book: "length (run_book s ms) = length ms"
  by (induction ms arbitrary: s) (simp_all add: Let_def)

lemma run_book_well_kept:
  "well_kept s \<Longrightarrow> run_opens_levels s ms \<Longrightarrow> \<forall>r \<in> set (run_book s ms). well_kept (fst r)"
proof (induction ms arbitrary: s)
  case Nil
  then show ?case by simp
next
  case (Cons x ms)
  from Cons.prems have own: "msg_opens_levels s (fst x)"
    and rest: "run_opens_levels (fst (book s (fst x) (snd x))) ms"
    by simp_all
  from book_well_kept [OF Cons.prems(1) own] have "well_kept (fst (book s (fst x) (snd x)))" .
  with Cons.IH [OF this rest] show ?case by (simp add: Let_def)
qed

lemma reset_well_kept:
  assumes "dom (l2_book s0) \<subseteq> set (pairs s0)"
  shows "well_kept (reset s0)"
proof -
  have stale: "l2_book s0 p = None" if "p \<notin> set (pairs s0)" for p
    using assms that by (cases "l2_book s0 p") (auto simp add: subset_iff dom_def)
  have "(l2_book (reset s0) p = None) = (order_id (reset s0) p = None)" for p
    using stale [of p] by (simp add: reset_fields)
  then have "dom (l2_book (reset s0)) = dom (order_id (reset s0))"
    by (auto simp add: dom_def)
  moreover have "index_price (reset s0) pair sd = Map.empty" for pair sd
    by (auto simp add: index_price_def reset_fields fun_eq_iff)
  moreover have "book_level (reset s0) pair sd = Map.empty" for pair sd
    using stale [of pair] by (auto simp add: book_level_def reset_fields fun_eq_iff)
  ultimately show ?thesis
    by (simp add: well_kept_def side_kept_def)
qed

text \<open>
  C1, as stated, fails. A partial with orders 1 and 2 both at price 100, then a delete
  of order 1: both messages have every field and both are applied and emitted, the
  delete removes the level at 100, and order 2 is left in the index at a price that is
  no level of the book.
\<close>

theorem shared_level_counterexample:
  "snd (run_book (reset xbt_session)
          [(message ''partial'' [buy 1 (Some 100) (Some 5), buy 2 (Some 100) (Some 7)], 1),
           (message ''delete'' [buy 1 None None], 2)] ! 1)
     = Inr (Emitted \<lparr>em_pair = Some ''XBTUSD'', em_channel = L2_BOOK, em_forced = False,
                      em_delta = ([(100, 0)], []), em_timestamp = 2\<rparr>)
   \<and> index_price (fst (run_book (reset xbt_session)
          [(message ''partial'' [buy 1 (Some 100) (Some 5), buy 2 (Some 100) (Some 7)], 1),
           (message ''delete'' [buy 1 None None], 2)] ! 1)) ''XBTUSD'' BID 2 = Some 100
   \<and> book_level (fst (run_book (reset xbt_session)
          [(message ''partial'' [buy 1 (Some 100) (Some 5), buy 2 (Some 100) (Some 7)], 1),
           (message ''delete'' [buy 1 None None], 2)] ! 1)) ''XBTUSD'' BID 100 = None
   \<and> \<not> book_consistent (fst (run_book (reset xbt_session)
          [(message ''partial'' [buy 1 (Some 100) (Some 5), buy 2 (Some 100) (Some 7)], 1),
           (message ''delete'' [buy 1 None None], 2)] ! 1))"
proof -
  let ?ms = "[(message ''partial'' [buy 1 (Some 100) (Some 5), buy 2 (Some 100) (Some 7)], 1),
              (message ''delete'' [buy 1 None None], 2)]"
  have facts:
    "snd (run_book (reset xbt_session) ?ms ! 1)
       = Inr (Emitted \<lparr>em_pair = Some ''XBTUSD'', em_channel = L2_BOOK, em_forced = False,
                        em_delta = ([(100, 0)], []), em_timestamp = 2\<rparr>)"
    "index_price (fst (run_book (reset xbt_session) ?ms ! 1)) ''XBTUSD'' BID 2 = Some 100"
    "book_level (fst (run_book (reset xbt_session) ?ms ! 1)) ''XBTUSD'' BID 100 = None"
    by (simp_all add: message_def buy_def xbt_session_def book_defs reset_fields
          book_level_def index_price_def)
  from facts(2,3) have "\<not> book_consistent (fst (run_book (reset xbt_session) ?ms ! 1))"
    unfolding book_consistent_def by blast
  with facts show ?thesis by blast
qed

text \<open>
  C1, amended. In a session whose book table has no pair beside the subscribed ones
  when it is reset, and for every sequence of messages in which each entry of a partial
  or insert, at the moment it is applied, opens a level of its own (its id is not in the
  index and its price is not in the book, or the index already has the id at that
  price), book and index are consistent after each message: every id of the index maps
  to a price that is a level of the book, and every level of the book is the price of
  some id of the index. This holds for every pair and side, after messages that raise
  as well.
\<close>

theorem book_consistent_one_id_per_level:
  assumes "dom (l2_book s0) \<subseteq> set (pairs s0)"
    and "run_opens_levels (reset s0) ms"
  shows "\<forall>r \<in> set (run_book (reset s0) ms). book_consistent (fst r)"
  using run_book_well_kept [OF reset_well_kept [OF assms(1)] assms(2)]
  by (auto intro: well_kept_consistent)

theorem book_consistent_one_id_per_level_witness:
  "dom (l2_book xbt_session) \<subseteq> set (pairs xbt_session)
   \<and> run_opens_levels (reset xbt_session)
        [(message ''partial'' [buy 1 (Some 100) (Some 5), buy 2 (Some 101) (Some 7)], 1),
         (message ''update'' [buy 1 None (Some 3)], 2),
         (message ''delete'' [buy 1 None None], 3),
         (message ''insert'' [buy 3 (Some 100) (Some 4)], 4)]
   \<and> book_consistent (fst (run_book (reset xbt_session)
        [(message ''partial'' [buy 1 (Some 100) (Some 5), buy 2 (Some 101) (Some 7)], 1),
         (message ''update'' [buy 1 None (Some 3)], 2),
         (message ''delete'' [buy 1 None None], 3),
         (message ''insert'' [buy 3 (Some 100) (Some 4)], 4)] ! 0))
   \<and> book_consistent (fst (run_book (reset xbt_session)
        [(message ''partial'' [buy 1 (Some 100) (Some 5), buy 2 (Some 101) (Some 7)], 1),
         (message ''update'' [buy 1 None (Some 3)], 2),
         (message ''delete'' [buy 1 None None], 3),
         (message ''insert'' [buy 3 (Some 100) (Some 4)], 4)] ! 1))
   \<and> book_consistent (fst (run_book (reset xbt_session)
        [(message ''partial'' [buy 1 (Some 100) (Some 5), buy 2 (Some 101) (Some 7)], 1),
         (message ''update'' [buy 1 None (Some 3)], 2),
         (message ''delete'' [buy 1 None None], 3),
         (message ''insert'' [buy 3 (Some 100) (Some 4)], 4)] ! 2))
   \<and> book_consistent (fst (run_book (reset xbt_session)
        [(message ''partial'' [buy 1 (Some 100) (Some 5), buy 2 (Some 101) (Some 7)], 1),
         (message ''update'' [buy 1 None (Some 3)], 2),
         (message ''delete'' [buy 1 None None], 3),
         (message ''insert'' [buy 3 (Some 100) (Some 4)], 4)] ! 3))"
proof -
  let ?ms = "[(message ''partial'' [buy 1 (Some 100) (Some 5), buy 2 (Some 101) (Some 7)], 1),
              (message ''update'' [buy 1 None (Some 3)], 2),
              (message ''delete'' [buy 1 None None], 3),
              (message ''insert'' [buy 3 (Some 100) (Some 4)], 4)]"
  have h1: "dom (l2_book xbt_session) \<subseteq> set (pairs xbt_session)"
    by (simp add: xbt_session_def)
  have h2: "run_opens_levels (reset xbt_session) ?ms"
    by (simp add: message_def buy_def xbt_session_def book_defs reset_fields
          msg_opens_levels_def opens_own_level_def book_level_def index_price_def)
  have "run_book (reset xbt_session) ?ms ! k \<in> set (run_book (reset xbt_session) ?ms)"
    if "k < 4" for k
    using that by (intro nth_mem) (simp add: length_run_book del: run_book.simps)
  with book_consistent_one_id_per_level [OF h1 h2]
  have "book_consistent (fst (run_book (reset xbt_session) ?ms ! k))" if "k < 4" for k
    using that by blast
  from this [of 0] this [of 1] this [of 2] this [of 3] h1 h2
  show ?thesis by simp
qed

section \<open>Properties of the registry\<close>

subsection \<open>What loading does to the two tables\<close>

lemma load_pair_reverse:
  "exchange_to_std (load_pair ex reg item) = (exchange_to_std reg)(snd item \<mapsto> fst item)"
  by (simp add: load_pair_def Let_def split: option.splits)

lemma load_pair_native:
  "native_of (load_pair ex reg item) std ex' =
     (if std = fst item \<and> ex' = ex then Some (snd item) else native_of reg std ex')"
  by (simp add: load_pair_def native_of_def Let_def split: option.splits)

text \<open>An entry of the reverse table was there before or comes from an item loaded.\<close>

lemma foldl_load_reverse:
  "exchange_to_std (foldl (load_pair ex) reg m) n = Some std \<Longrightarrow>
     exchange_to_std reg n = Some std \<or> (std, n) \<in> set m"
proof (induction m arbitrary: reg)
  case Nil
  then show ?case by simp
next
  case (Cons item m)
  from Cons.IH [of "load_pair ex reg item"] Cons.prems
  have "exchange_to_std (load_pair ex reg item) n = Some std \<or> (std, n) \<in> set m"
    by simp
  then show ?case
    by (cases item) (auto simp add: load_pair_reverse split: if_splits)
qed

lemma foldl_load_native:
  "native_of (foldl (load_pair ex) reg m) std ex' = Some n \<Longrightarrow>
     native_of reg std ex' = Some n \<or> (ex' = ex \<and> (std, n) \<in> set m)"
proof (induction m arbitrary: reg)
  case Nil
  then show ?case by simp
next
  case (Cons item m)
  from Cons.IH [of "load_pair ex reg item"] Cons.prems
  have "native_of (load_pair ex reg item) std ex' = Some n \<or> (ex' = ex \<and> (std, n) \<in> set m)"
    by simp
  then show ?case
    by (cases item) (auto simp add: load_pair_native split: if_splits)
qed

text \<open>The reverse table only grows, by every native pair loaded.\<close>

lemma foldl_load_dom:
  "n \<in> dom (exchange_to_std reg) \<or> n \<in> snd ` set m \<Longrightarrow>
     n \<in> dom (exchange_to_std (foldl (load_pair ex) reg m))"
proof (induction m arbitrary: reg)
  case Nil
  then show ?case by simp
next
  case (Cons item m)
  have "n \<in> dom (exchange_to_std (load_pair ex reg item)) \<or> n \<in> snd ` set m"
    using Cons.prems by (auto simp add: load_pair_reverse)
  from Cons.IH [OF this] show ?case by simp
qed

lemma load_all_reverse:
  "exchange_to_std (load_all reg loads) n = Some std \<Longrightarrow>
     exchange_to_std reg n = Some std \<or>
     (\<exists>x \<in> set loads. fst x \<notin> {BITMEX, DERIBIT, KRAKEN_FUTURES} \<and> (std, n) \<in> set (snd x))"
proof (induction loads arbitrary: reg)
  case Nil
  then show ?case by simp
next
  case (Cons x loads)
  from Cons.IH [of "load_exchange_pair_mapping reg (fst x) (snd x)"] Cons.prems
  consider "exchange_to_std (load_exchange_pair_mapping reg (fst x) (snd x)) n = Some std"
    | "\<exists>y \<in> set loads. fst y \<notin> {BITMEX, DERIBIT, KRAKEN_FUTURES} \<and> (std, n) \<in> set (snd y)"
    by auto
  then show ?case
  proof cases
    case 1
    then show ?thesis
      using foldl_load_reverse [of "fst x" reg "snd x" n std]
      by (auto simp add: load_exchange_pair_mapping_def split: if_splits)
  next
    case 2
    then show ?thesis by auto
  qed
qed

lemma load_all_native:
  "native_of (load_all reg loads) std ex = Some n \<Longrightarrow>
     native_of reg std ex = Some n \<or>
     (\<exists>x \<in> set loads. fst x = ex \<and> ex \<notin> {BITMEX, DERIBIT, KRAKEN_FUTURES}
        \<and> (std, n) \<in> set (snd x))"
proof (induction loads arbitrary: reg)
  case Nil
  then show ?case by simp
next
  case (Cons x loads)
  from Cons.IH [of "load_exchange_pair_mapping reg (fst x) (snd x)"] Cons.prems
  consider "native_of (load_exchange_pair_mapping reg (fst x) (snd x)) std ex = Some n"
    | "\<exists>y \<in> set loads. fst y = ex \<and> ex \<notin> {BITMEX, DERIBIT, KRAKEN_FUTURES}
         \<and> (std, n) \<in> set (snd y)"
    by auto
  then show ?case
  proof cases
    case 1
    then show ?thesis
      using foldl_load_native [of "fst x" reg "snd x" std ex n]
      by (auto simp add: load_exchange_pair_mapping_def split: if_splits)
  next
    case 2
    then show ?thesis by auto
  qed
qed

lemma load_all_dom:
  "n \<in> dom (exchange_to_std reg) \<or>
   (\<exists>x \<in> set loads. fst x \<notin> {BITMEX, DERIBIT, KRAKEN_FUTURES} \<and> n \<in> snd ` set (snd x)) \<Longrightarrow>
     n \<in> dom (exchange_to_std (load_all reg loads))"
proof (induction loads arbitrary: reg)
  case Nil
  then show ?case by simp
next
  case (Cons x loads)
  have "n \<in> dom (exchange_to_std (load_exchange_pair_mapping reg (fst x) (snd x))) \<or>
        (\<exists>y \<in> set loads. fst y \<notin> {BITMEX, DERIBIT, KRAKEN_FUTURES} \<and> n \<in> snd ` set (snd y))"
    using Cons.prems foldl_load_dom [of n reg "snd x" "fst x"]
    by (auto simp add: load_exchange_pair_mapping_def)
  from Cons.IH [OF this] show ?case by simp
qed

lemmas registry_defs =
  pair_round_trip_def pair_std_to_exchange_def pair_exchange_to_std_def
  load_exchange_pair_mapping_def load_pair_def empty_registry_def native_of_def Let_def

subsection \<open>The round trip of a pair\<close>

text \<open>
  C6, as stated, fails. With Coinbase loaded with BTC-USD as \<^verbatim>\<open>BTCUSD\<close> and then HitBTC
  loaded with BTC-USDT as \<^verbatim>\<open>BTCUSD\<close>, BTC-USD is registered for Coinbase, yet its native
  pair translates back to BTC-USDT: the reverse table has one entry for a native pair,
  whichever exchange it came from, and the later load has overwritten it.
\<close>

theorem pair_round_trip_shared_native_counterexample:
  "native_of (load_all empty_registry
       [(COINBASE, [(''BTC-USD'', ''BTCUSD'')]), (HITBTC, [(''BTC-USDT'', ''BTCUSD'')])])
     ''BTC-USD'' COINBASE = Some ''BTCUSD''
   \<and> pair_round_trip (load_all empty_registry
         [(COINBASE, [(''BTC-USD'', ''BTCUSD'')]), (HITBTC, [(''BTC-USDT'', ''BTCUSD'')])])
       ''BTC-USD'' COINBASE = Inr (Some ''BTC-USDT'')
   \<and> pair_round_trip (load_all empty_registry
         [(COINBASE, [(''BTC-USD'', ''BTCUSD'')]), (HITBTC, [(''BTC-USDT'', ''BTCUSD'')])])
       ''BTC-USD'' COINBASE \<noteq> Inr (Some ''BTC-USD'')"
  by (simp add: registry_defs)

text \<open>
  C6, amended. After any sequence of loads into the empty registry, for every exchange
  for which BTC-USD is registered, the native pair of BTC-USD translates back to
  BTC-USD, provided that no mapping loaded (for an exchange that is not one of the three
  that validate their pairs themselves) gives that same native pair to another canonical
  pair.
\<close>

theorem pair_round_trip_unshared_native:
  assumes registered: "native_of (load_all empty_registry loads) ''BTC-USD'' exchange = Some native"
    and unshared: "\<forall>x \<in> set loads. fst x \<notin> {BITMEX, DERIBIT, KRAKEN_FUTURES} \<longrightarrow>
                     (\<forall>item \<in> set (snd x). snd item = native \<longrightarrow> fst item = ''BTC-USD'')"
  shows "pair_std_to_exchange (load_all empty_registry loads) ''BTC-USD'' exchange = Inr native
       \<and> pair_round_trip (load_all empty_registry loads) ''BTC-USD'' exchange
           = Inr (Some ''BTC-USD'')"
proof -
  let ?R = "load_all empty_registry loads"
  from load_all_native [OF registered]
  obtain x where x: "x \<in> set loads" "fst x = exchange"
      "exchange \<notin> {BITMEX, DERIBIT, KRAKEN_FUTURES}" "(''BTC-USD'', native) \<in> set (snd x)"
    by (auto simp add: native_of_def empty_registry_def)
  have fwd: "pair_std_to_exchange ?R ''BTC-USD'' exchange = Inr native"
    using registered x(3)
    by (auto simp add: pair_std_to_exchange_def native_of_def split: option.splits)
  have "native \<in> dom (exchange_to_std ?R)"
    using x by (intro load_all_dom) force
  then obtain std where std: "exchange_to_std ?R native = Some std"
    by auto
  from load_all_reverse [OF std]
  obtain y where "y \<in> set loads" "fst y \<notin> {BITMEX, DERIBIT, KRAKEN_FUTURES}"
      "(std, native) \<in> set (snd y)"
    by (auto simp add: empty_registry_def)
  with unshared have "std = ''BTC-USD''"
    by fastforce
  with std fwd show ?thesis
    by (simp add: pair_round_trip_def pair_exchange_to_std_def)
qed

theorem pair_round_trip_unshared_native_witness:
  "native_of (load_all empty_registry
       [(COINBASE, [(''BTC-USD'', ''BTC-USD'')]),
        (HITBTC, [(''BTC-USD'', ''BTCUSD''), (''ETH-BTC'', ''ETHBTC'')])])
     ''BTC-USD'' HITBTC = Some ''BTCUSD''
   \<and> pair_round_trip (load_all empty_registry
         [(COINBASE, [(''BTC-USD'', ''BTC-USD'')]),
          (HITBTC, [(''BTC-USD'', ''BTCUSD''), (''ETH-BTC'', ''ETHBTC'')])])
       ''BTC-USD'' HITBTC = Inr (Some ''BTC-USD'')"
  using pair_round_trip_unshared_native
    [of "[(COINBASE, [(''BTC-USD'', ''BTC-USD'')]),
          (HITBTC, [(''BTC-USD'', ''BTCUSD''), (''ETH-BTC'', ''ETHBTC'')])]"
        HITBTC "''BTCUSD''"]
  by (simp add: registry_defs)

subsection \<open>The reverse translation on the empty string\<close>

text \<open>
  C9. The reverse translation is meant to answer every native pair: the canonical pair,
  the pair without its funding prefix, or \<open>None\<close>. On the empty string, when it is not a
  key of the reverse table, the code reaches \<^verbatim>\<open>pair[0]\<close> and raises \<^verbatim>\<open>IndexError\<close>
  instead of returning \<open>None\<close>.
\<close>

theorem pair_exchange_to_std_empty_string:
  "pair_exchange_to_std empty_registry '''' = Inl IndexError"
  by (simp add: pair_exchange_to_std_def empty_registry_def)

text \<open>On every other string it returns.\<close>

lemma pair_exchange_to_std_nonempty:
  "pair \<noteq> [] \<Longrightarrow> \<exists>r. pair_exchange_to_std reg pair = Inr r"
  by (cases pair) (auto simp add: pair_exchange_to_std_def split: option.splits)

subsection \<open>The channel of an exchange\<close>

lemma pair_std_to_exchange_errors:
  "pair_std_to_exchange reg pair ex \<noteq> Inl KeyError"
  "pair_std_to_exchange reg pair ex \<noteq> Inl UnsupportedDataFeed"
  by (simp_all add: pair_std_to_exchange_def split: option.splits)

text \<open>
  C8. Where the table entry of a feed and an exchange is the sentinel \<^verbatim>\<open>UNSUPPORTED\<close>,
  \<^verbatim>\<open>feed_to_exchange\<close> logs one line at error level and raises \<^verbatim>\<open>UnsupportedDataFeed\<close>.
  For Poloniex a feed that is not a key of the table is not looked up in it: it is a
  string, the call logs nothing, and its outcome is that of \<^verbatim>\<open>pair_std_to_exchange\<close> on
  this string, so neither the \<^verbatim>\<open>KeyError\<close> of the missing key nor
  \<^verbatim>\<open>UnsupportedDataFeed\<close>.
\<close>

theorem feed_to_exchange_unsupported_or_pair:
  "(feed_row f = Some row \<and> map_of row exchange = Some UNSUPPORTED \<longrightarrow>
      feed_to_exchange reg exchange f = ([LogError f exchange], Inl UnsupportedDataFeed))
   \<and> (feed_row f = None \<longrightarrow>
        (\<exists>n. f = Name n \<and>
           feed_to_exchange reg POLONIEX f =
             ([], case pair_std_to_exchange reg n POLONIEX of
                    Inl err \<Rightarrow> Inl err | Inr native \<Rightarrow> Inr (Str native)))
        \<and> snd (feed_to_exchange reg POLONIEX f) \<noteq> Inl KeyError
        \<and> snd (feed_to_exchange reg POLONIEX f) \<noteq> Inl UnsupportedDataFeed)"
proof (intro conjI impI)
  assume "feed_row f = Some row \<and> map_of row exchange = Some UNSUPPORTED"
  then show "feed_to_exchange reg exchange f = ([LogError f exchange], Inl UnsupportedDataFeed)"
    by (cases f) (auto simp add: feed_to_exchange_def feed_row_def)
next
  assume none: "feed_row f = None"
  have row: "map_of feed_to_exchange_map c \<noteq> None" for c
    by (cases c) (simp_all add: feed_to_exchange_map_def)
  from none row obtain n where n: "f = Name n"
    by (cases f) (auto simp add: feed_row_def)
  show "\<exists>n. f = Name n \<and>
           feed_to_exchange reg POLONIEX f =
             ([], case pair_std_to_exchange reg n POLONIEX of
                    Inl err \<Rightarrow> Inl err | Inr native \<Rightarrow> Inr (Str native))"
    using n by (simp add: feed_to_exchange_def split: sum.splits)
  show "snd (feed_to_exchange reg POLONIEX f) \<noteq> Inl KeyError"
    using n pair_std_to_exchange_errors(1) [of reg n POLONIEX]
    by (auto simp add: feed_to_exchange_def split: sum.splits)
  show "snd (feed_to_exchange reg POLONIEX f) \<noteq> Inl UnsupportedDataFeed"
    using n pair_std_to_exchange_errors(2) [of reg n POLONIEX]
    by (auto simp add: feed_to_exchange_def split: sum.splits)
qed

theorem feed_to_exchange_unsupported_or_pair_witness:
  "map_of (the (feed_row (Channel L3_BOOK))) BITMEX = Some UNSUPPORTED
   \<and> feed_to_exchange empty_registry BITMEX (Channel L3_BOOK)
       = ([LogError (Channel L3_BOOK) BITMEX], Inl UnsupportedDataFeed)
   \<and> feed_row (Name ''BTC-USDT'') = None
   \<and> feed_to_exchange
        (load_all empty_registry [(POLONIEX, [(''BTC-USDT'', ''USDT_BTC'')])])
        POLONIEX (Name ''BTC-USDT'')
       = ([], Inr (Str ''USDT_BTC''))"
  using feed_to_exchange_unsupported_or_pair
      [of "Channel L3_BOOK" "the (feed_row (Channel L3_BOOK))" BITMEX empty_registry]
    feed_to_exchange_unsupported_or_pair
      [of "Name ''BTC-USDT''" "[]" POLONIEX
          "load_all empty_registry [(POLONIEX, [(''BTC-USDT'', ''USDT_BTC'')])]"]
  by (simp add: feed_row_def feed_to_exchange_map_def registry_defs)

section \<open>Properties of the timestamp conversion\<close>

subsection \<open>The rounding to a float\<close>

text \<open>The parts of the rounding do what their names say.\<close>

lemma bit_length_bounds:
  "0 < n \<Longrightarrow> 2 ^ (bit_length n - 1) \<le> n \<and> n < 2 ^ bit_length n"
proof (induction n rule: bit_length.induct)
  case (1 n)
  show ?case
  proof (cases "n div 2 = 0")
    case True
    with "1.prems" have "n = 1" by (simp add: div_eq_0_iff) 
    then show ?thesis by (simp add: bit_length.simps)
  next
    case False
    then have half: "0 < n div 2" by simp
    from "1.IH" [OF _ half] "1.prems"
    have ih: "2 ^ (bit_length (n div 2) - 1) \<le> n div 2" "n div 2 < 2 ^ bit_length (n div 2)"
      by simp_all
    have pos: "0 < bit_length (n div 2)"
      using half by (subst bit_length.simps) simp
    have len: "bit_length n = Suc (bit_length (n div 2))"
      using "1.prems" by (subst bit_length.simps) simp
    have "(2::nat) ^ bit_length (n div 2) = 2 * 2 ^ (bit_length (n div 2) - 1)"
      using pos by (cases "bit_length (n div 2)") simp_all
    with ih(1) have "2 ^ bit_length (n div 2) \<le> 2 * (n div 2)" by simp
    also have "\<dots> \<le> n" by simp
    finally have lower: "2 ^ (bit_length n - 1) \<le> n" by (simp add: len)
    from ih(2) have "n div 2 + 1 \<le> 2 ^ bit_length (n div 2)" by simp
    then have "2 * (n div 2) + 2 \<le> 2 * 2 ^ bit_length (n div 2)" by simp
    moreover have "n < 2 * (n div 2) + 2" by presburger
    ultimately have "n < 2 ^ bit_length n" by (simp add: len)
    with lower show ?thesis ..
  qed
qed

lemma floor_log2_bounds:
  assumes "0 < x"
  shows "power_int 2 (floor_log2 x) \<le> x \<and> x < power_int 2 (floor_log2 x + 1)"
proof (cases "1 \<le> x")
  case True
  define n where "n = nat \<lfloor>x\<rfloor>"
  from True have n: "0 < n" "of_nat n \<le> x" "x < of_nat n + 1"
    by (simp_all add: n_def le_floor_iff) linarith+
  from bit_length_bounds [OF n(1)] have b: "2 ^ (bit_length n - 1) \<le> n" "n < 2 ^ bit_length n"
    by simp_all
  have pos: "0 < bit_length n" using n(1) by (subst bit_length.simps) simp
  have e: "floor_log2 x = int (bit_length n - 1)"
    using True pos by (simp add: floor_log2_def n_def of_nat_diff)
  have "(2::rat) ^ (bit_length n - 1) \<le> of_nat n"
    using of_nat_mono [OF b(1), where ?'a = rat] by simp
  from this n(2) have "(2::rat) ^ (bit_length n - 1) \<le> x"
    by (rule order_trans)
  then have lower: "power_int 2 (floor_log2 x) \<le> x"
    by (simp add: e)
  have "n + 1 \<le> 2 ^ bit_length n" using b(2) by simp
  from of_nat_mono [OF this, where ?'a = rat] have "(of_nat n :: rat) + 1 \<le> 2 ^ bit_length n"
    by simp
  with n(3) have "x < 2 ^ bit_length n" by (rule less_le_trans)
  moreover have "floor_log2 x + 1 = int (bit_length n)"
    using pos by (simp add: e)
  ultimately have "x < power_int 2 (floor_log2 x + 1)" by simp
  with lower show ?thesis ..
next
  case False
  define y where "y = 1 / x"
  define n where "n = nat (\<lceil>y\<rceil> - 1)"
  from False assms have y: "1 < y" by (simp add: y_def)
  then have c: "2 \<le> \<lceil>y\<rceil>" by (simp add: le_ceiling_iff) 
  then have n: "0 < n" "of_nat n < y" "y \<le> of_nat n + 1"
    by (simp_all add: n_def) linarith+
  from bit_length_bounds [OF n(1)] have b: "2 ^ (bit_length n - 1) \<le> n" "n < 2 ^ bit_length n"
    by simp_all
  have pos: "0 < bit_length n" using n(1) by (subst bit_length.simps) simp
  have e: "floor_log2 x = - int (bit_length n)"
    using False by (simp add: floor_log2_def n_def y_def)
  have "n + 1 \<le> 2 ^ bit_length n" using b(2) by simp
  from of_nat_mono [OF this, where ?'a = rat] have "(of_nat n :: rat) + 1 \<le> 2 ^ bit_length n"
    by simp
  with n(3) have "y \<le> 2 ^ bit_length n" by (rule order_trans)
  then have "1 / 2 ^ bit_length n \<le> x"
    using assms by (simp add: y_def field_simps)
  then have lower: "power_int 2 (floor_log2 x) \<le> x"
    by (simp add: e power_int_minus field_simps)
  have "(2::rat) ^ (bit_length n - 1) \<le> of_nat n"
    using of_nat_mono [OF b(1), where ?'a = rat] by simp
  from this n(2) have "2 ^ (bit_length n - 1) < y" by (rule le_less_trans)
  then have "x < 1 / 2 ^ (bit_length n - 1)"
    using assms by (simp add: y_def field_simps)
  moreover have "floor_log2 x + 1 = - int (bit_length n - 1)"
    using pos by (simp add: e of_nat_diff)
  ultimately have "x < power_int 2 (floor_log2 x + 1)"
    by (simp add: power_int_minus field_simps)
  with lower show ?thesis ..
qed

lemma round_half_even_nearest:
  "\<bar>of_int (round_half_even y) - y\<bar> \<le> 1 / 2"
proof -
  define f where "f = \<lfloor>y\<rfloor>"
  define r where "r = y - of_int f"
  have r: "0 \<le> r" "r < 1"
    unfolding r_def f_def by linarith+
  have y: "y = of_int f + r"
    by (simp add: r_def)
  have "round_half_even y =
          (if r < 1 / 2 then f else if 1 / 2 < r then f + 1 else if even f then f else f + 1)"
    by (simp add: round_half_even_def Let_def f_def r_def)
  then show ?thesis
    using r by (auto simp add: y abs_if)
qed

lemma scale2_power_int: "scale2 x k = x * power_int 2 k"
  by (simp add: scale2_def power_int_def field_simps power_inverse)

text \<open>A finite result is within half a unit in the last place of the number rounded.\<close>

lemma round_float_error:
  assumes "round_float x = Finite r"
  shows "\<bar>r - x\<bar> \<le> power_int 2 (max (floor_log2 \<bar>x\<bar>) (- 1022) - 53)"
proof (cases "x = 0")
  case True
  with assms show ?thesis by (simp add: round_float_def)
next
  case False
  define e where "e = max (floor_log2 \<bar>x\<bar>) (- 1022)"
  define m where "m = round_half_even (scale2 \<bar>x\<bar> (52 - e))"
  define q :: rat where "q = power_int 2 (e - 52)"
  have q: "0 < q" by (simp add: q_def)
  have unscale: "scale2 \<bar>x\<bar> (52 - e) * q = \<bar>x\<bar>"
    by (simp add: scale2_power_int q_def flip: power_int_add)
  from assms False have r: "r = (if x < 0 then - (of_int m * q) else of_int m * q)"
    by (simp add: round_float_def Let_def scale2_power_int e_def m_def q_def split: if_splits)
  have "of_int m * q - \<bar>x\<bar> = (of_int m - scale2 \<bar>x\<bar> (52 - e)) * q"
    using unscale by (simp add: algebra_simps)
  then have "\<bar>of_int m * q - \<bar>x\<bar>\<bar> = \<bar>of_int m - scale2 \<bar>x\<bar> (52 - e)\<bar> * q"
    using q by (simp add: abs_mult)
  also have "\<dots> \<le> 1 / 2 * q"
    using round_half_even_nearest [of "scale2 \<bar>x\<bar> (52 - e)"] q
    by (intro mult_right_mono) (simp_all add: m_def)
  finally have "\<bar>of_int m * q - \<bar>x\<bar>\<bar> \<le> q / 2"
    by simp
  moreover have "q / 2 = power_int 2 (e - 53)"
    by (simp add: q_def power_int_diff)
  moreover have "\<bar>r - x\<bar> = \<bar>of_int m * q - \<bar>x\<bar>\<bar>"
  proof (cases "x < 0")
    case True
    with r have "r - x = - (of_int m * q - \<bar>x\<bar>)" by simp
    then show ?thesis by (simp only: abs_minus_cancel)
  next
    case False
    with r have "r - x = of_int m * q - \<bar>x\<bar>" by simp
    then show ?thesis by simp
  qed
  ultimately show ?thesis
    by (simp add: e_def)
qed

subsection \<open>Evaluating the rounding\<close>

lemma floor_rat_numeral_div:
  "\<lfloor>numeral a / numeral b :: rat\<rfloor> = numeral a div numeral b"
  by (metis floor_divide_of_int_eq of_int_numeral)

lemma ceiling_rat_numeral_div:
  "\<lceil>numeral a / numeral b :: rat\<rceil> = - ((- numeral a) div numeral b)"
  by (metis ceiling_def floor_divide_of_int_eq minus_divide_left of_int_minus of_int_numeral)

lemmas float_defs =
  round_float_def floor_log2_def bit_length.simps round_half_even_def scale2_def Let_def
  floor_rat_numeral_div ceiling_rat_numeral_div

text \<open>Two doubles that are well known: one tenth, and the tie at \<open>2^53 + 1\<close>.\<close>

lemma round_float_tenth:
  "round_float (1 / 10) = Finite (3602879701896397 / 36028797018963968)"
  by (simp add: float_defs)

lemma round_float_tie:
  "round_float 9007199254740993 = Finite 9007199254740992"
  by (simp add: float_defs)

lemma round_float_millis:
  "round_float 1500000000123 = Finite 1500000000123"
  "round_float (1500000000123 / 1000) = Finite (6291456000515899 / 4194304)"
  by (simp_all add: float_defs)

lemma round_float_micros:
  "round_float 1500000000123456 = Finite 1500000000123456"
  "round_float (1500000000123456 / 1000000) = Finite (1572864000129453 / 1048576)"
  by (simp_all add: float_defs)

subsection \<open>The normalised timestamps\<close>

text \<open>
  C7, as stated, fails. For Huobi, which sends milliseconds, the call on 1500000000123
  returns a float, the double \<open>6291456000515899 / 2^22\<close>, and neither as a float nor as
  a decimal the exact value 1500000000.123, which no binary float has.
\<close>

theorem timestamp_normalize_not_exact_counterexample:
  "timestamp_normalize HUOBI (IntV 1500000000123)
     = Inr (Returned (FloatV (Finite (6291456000515899 / 4194304))))
   \<and> timestamp_normalize HUOBI (IntV 1500000000123)
     \<noteq> Inr (Returned (FloatV (Finite (1500000000123 / 1000))))
   \<and> timestamp_normalize HUOBI (IntV 1500000000123)
     \<noteq> Inr (Returned (DecimalV (1500000000123 / 1000)))"
  by (simp add: timestamp_normalize_def truediv_float_def round_float_millis)

text \<open>
  C7, amended. \<^verbatim>\<open>timestamp_normalize\<close> returns seconds as a binary float. For an
  exchange of the millisecond group, the call on 1500000000123 returns the double nearest
  to 1500000000.123, which is the value that the Python literal \<^verbatim>\<open>1500000000.123\<close>
  has too, less than \<open>2^-23\<close> away from the decimal; for Bitstamp, the call on
  1500000000123456 returns the double nearest to 1500000000.123456 in the same way; and
  for every exchange in none of the three groups the call returns its input unchanged.
\<close>

theorem timestamp_normalize_nearest_double:
  "(exchange \<in> {HUOBI, HUOBI_US, HUOBI_DM, BITFINEX, COINBENE, DERIBIT, BINANCE, GEMINI} \<longrightarrow>
      timestamp_normalize exchange (IntV 1500000000123)
        = Inr (Returned (FloatV (round_float (1500000000123 / 1000)))))
   \<and> timestamp_normalize BITSTAMP (IntV 1500000000123456)
        = Inr (Returned (FloatV (round_float (1500000000123456 / 1000000))))
   \<and> round_float (1500000000123 / 1000) = Finite (6291456000515899 / 4194304)
   \<and> round_float (1500000000123456 / 1000000) = Finite (1572864000129453 / 1048576)
   \<and> \<bar>6291456000515899 / 4194304 - 1500000000123 / 1000\<bar> < (1 / 2 ^ 23 :: rat)
   \<and> \<bar>1572864000129453 / 1048576 - 1500000000123456 / 1000000\<bar> < (1 / 2 ^ 23 :: rat)
   \<and> (exchange \<notin> {BITMEX, COINBASE, HITBTC, OKCOIN, OKEX, BYBIT, FTX}
          \<union> {HUOBI, HUOBI_US, HUOBI_DM, BITFINEX, COINBENE, DERIBIT, BINANCE, GEMINI}
          \<union> {BITSTAMP} \<longrightarrow>
        timestamp_normalize exchange ts = Inr (Returned ts))"
proof (intro conjI impI)
  assume "exchange \<in> {HUOBI, HUOBI_US, HUOBI_DM, BITFINEX, COINBENE, DERIBIT, BINANCE, GEMINI}"
  then show "timestamp_normalize exchange (IntV 1500000000123)
               = Inr (Returned (FloatV (round_float (1500000000123 / 1000))))"
    by (auto simp add: timestamp_normalize_def truediv_float_def round_float_millis(1))
next
  show "timestamp_normalize BITSTAMP (IntV 1500000000123456)
          = Inr (Returned (FloatV (round_float (1500000000123456 / 1000000))))"
    by (simp add: timestamp_normalize_def truediv_float_def round_float_micros(1))
next
  show "round_float (1500000000123 / 1000) = Finite (6291456000515899 / 4194304)"
    by (rule round_float_millis(2))
next
  show "round_float (1500000000123456 / 1000000) = Finite (1572864000129453 / 1048576)"
    by (rule round_float_micros(2))
next
  show "\<bar>6291456000515899 / 4194304 - 1500000000123 / 1000\<bar> < (1 / 2 ^ 23 :: rat)"
    by simp
next
  show "\<bar>1572864000129453 / 1048576 - 1500000000123456 / 1000000\<bar> < (1 / 2 ^ 23 :: rat)"
    by simp
next
  assume "exchange \<notin> {BITMEX, COINBASE, HITBTC, OKCOIN, OKEX, BYBIT, FTX}
          \<union> {HUOBI, HUOBI_US, HUOBI_DM, BITFINEX, COINBENE, DERIBIT, BINANCE, GEMINI}
          \<union> {BITSTAMP}"
  then show "timestamp_normalize exchange ts = Inr (Returned ts)"
    by (simp add: timestamp_normalize_def)
qed

theorem timestamp_normalize_nearest_double_witness:
  "timestamp_normalize HUOBI (IntV 1500000000123)
     = Inr (Returned (FloatV (Finite (6291456000515899 / 4194304))))
   \<and> timestamp_normalize BITSTAMP (IntV 1500000000123456)
     = Inr (Returned (FloatV (Finite (1572864000129453 / 1048576))))
   \<and> timestamp_normalize KRAKEN (IntV 1500000000123) = Inr (Returned (IntV 1500000000123))
   \<and> timestamp_normalize (OtherExchange ''ACME'') (StrV ''2018-05-19T12:25:26.632Z'')
     = Inr (Returned (StrV ''2018-05-19T12:25:26.632Z''))"
  using timestamp_normalize_nearest_double [of HUOBI "IntV 1500000000123"]
    timestamp_normalize_nearest_double [of KRAKEN "IntV 1500000000123"]
    timestamp_normalize_nearest_double
      [of "OtherExchange ''ACME''" "StrV ''2018-05-19T12:25:26.632Z''"]
  by simp

end
